theory Spec2Isabelle
  imports Complex_Main
begin

text \<open>
  A model of \<^verbatim>\<open>mvstats/mvstats.py\<close>: covariance, correlation and linear regression
  of labeled arrays along their time axis, with optional lags, and linear detrending.
  The arrays are xarray DataArrays; the operations of xarray, NumPy and SciPy that the
  five functions call are modelled from their documented behaviour, the five functions
  themselves line by line.
\<close>

section \<open>Floating-point values\<close>

text \<open>
  The arrays of \<^verbatim>\<open>mvstats.py\<close> hold IEEE-754 doubles. The model keeps the special
  values of IEEE arithmetic (the two infinities and NaN) and computes on the finite
  values with exact real arithmetic: rounding and overflow are outside the model, zero
  carries no sign and counts as \<open>+0\<close> when it divides. NumPy arithmetic on arrays
  never raises: a division by zero gives an infinity or NaN (and a warning). The
  values of the model are those of the program where the doubles compute without
  rounding, as on the small integers and halves of the examples. Elsewhere the values
  of the program carry rounding errors, and a quantity that is exactly zero here (the
  deviation of a constant series from its mean, \<open>1 - cor\<^sup>2\<close> on two points) need not
  be zero there. What is stated for all inputs below is therefore an equation between
  the results of the same operations, the propagation of NaN and the infinities, or the
  statistics of a series that the doubles compute exactly.
\<close>

datatype fl = Fin real | PInf | NInf | NaN

fun fneg :: "fl \<Rightarrow> fl" where
  "fneg (Fin a) = Fin (- a)"
| "fneg PInf = NInf"
| "fneg NInf = PInf"
| "fneg NaN = NaN"

fun fadd :: "fl \<Rightarrow> fl \<Rightarrow> fl" where
  "fadd NaN v = NaN"
| "fadd u NaN = NaN"
| "fadd (Fin a) (Fin b) = Fin (a + b)"
| "fadd (Fin a) PInf = PInf"
| "fadd (Fin a) NInf = NInf"
| "fadd PInf (Fin b) = PInf"
| "fadd PInf PInf = PInf"
| "fadd PInf NInf = NaN"
| "fadd NInf (Fin b) = NInf"
| "fadd NInf PInf = NaN"
| "fadd NInf NInf = NInf"

definition fsub :: "fl \<Rightarrow> fl \<Rightarrow> fl" where
  "fsub u v = fadd u (fneg v)"

fun fmul :: "fl \<Rightarrow> fl \<Rightarrow> fl" where
  "fmul NaN v = NaN"
| "fmul u NaN = NaN"
| "fmul (Fin a) (Fin b) = Fin (a * b)"
| "fmul (Fin a) PInf = (if a = 0 then NaN else if 0 < a then PInf else NInf)"
| "fmul (Fin a) NInf = (if a = 0 then NaN else if 0 < a then NInf else PInf)"
| "fmul PInf (Fin b) = (if b = 0 then NaN else if 0 < b then PInf else NInf)"
| "fmul NInf (Fin b) = (if b = 0 then NaN else if 0 < b then NInf else PInf)"
| "fmul PInf PInf = PInf"
| "fmul PInf NInf = NInf"
| "fmul NInf PInf = NInf"
| "fmul NInf NInf = PInf"

fun fdiv :: "fl \<Rightarrow> fl \<Rightarrow> fl" where
  "fdiv NaN v = NaN"
| "fdiv u NaN = NaN"
| "fdiv (Fin a) (Fin b) =
     (if b = 0 then (if a = 0 then NaN else if 0 < a then PInf else NInf)
      else Fin (a / b))"
| "fdiv (Fin a) PInf = Fin 0"
| "fdiv (Fin a) NInf = Fin 0"
| "fdiv PInf (Fin b) = (if 0 \<le> b then PInf else NInf)"
| "fdiv NInf (Fin b) = (if 0 \<le> b then NInf else PInf)"
| "fdiv PInf PInf = NaN"
| "fdiv PInf NInf = NaN"
| "fdiv NInf PInf = NaN"
| "fdiv NInf NInf = NaN"

fun fsqrt :: "fl \<Rightarrow> fl" where
  "fsqrt (Fin a) = (if a < 0 then NaN else Fin (sqrt a))"
| "fsqrt PInf = PInf"
| "fsqrt NInf = NaN"
| "fsqrt NaN = NaN"

fun fabs :: "fl \<Rightarrow> fl" where
  "fabs (Fin a) = Fin \<bar>a\<bar>"
| "fabs PInf = PInf"
| "fabs NInf = PInf"
| "fabs NaN = NaN"

text \<open>The comparison \<^verbatim>\<open>==\<close> of two doubles: NaN equals nothing, not even itself.\<close>

fun feq :: "fl \<Rightarrow> fl \<Rightarrow> bool" where
  "feq NaN v = False"
| "feq u NaN = False"
| "feq u v = (u = v)"

section \<open>Reductions of one time series\<close>

text \<open>
  xarray's \<^verbatim>\<open>mean\<close>, \<^verbatim>\<open>std\<close> and \<^verbatim>\<open>sum\<close> skip NaN entries of a float array
  (\<^verbatim>\<open>skipna\<close> defaults to true for floats); \<^verbatim>\<open>np.sum\<close> applied to a DataArray calls
  the DataArray's own \<^verbatim>\<open>sum\<close>. The sum of no entries is 0, the mean of no entries is
  0/0 = NaN. The standard deviation is NumPy's \<^verbatim>\<open>nanstd\<close> with \<^verbatim>\<open>ddof=0\<close>: the
  square root of the average squared deviation of the entries that are not NaN.
\<close>

definition fsum :: "fl list \<Rightarrow> fl" where
  "fsum vs = foldr fadd vs (Fin 0)"

definition notnull :: "fl list \<Rightarrow> fl list" where
  "notnull vs = filter (\<lambda>v. v \<noteq> NaN) vs"

definition nansum :: "fl list \<Rightarrow> fl" where
  "nansum vs = fsum (notnull vs)"

definition nanmean :: "fl list \<Rightarrow> fl" where
  "nanmean vs = fdiv (nansum vs) (Fin (real (length (notnull vs))))"

definition nanvar :: "fl list \<Rightarrow> fl" where
  "nanvar vs =
     (let avg = nanmean vs;
          sqr = map (\<lambda>v. fmul (fsub v avg) (fsub v avg)) (notnull vs)
      in fdiv (fsum sqr) (Fin (real (length (notnull vs)))))"

definition nanstd :: "fl list \<Rightarrow> fl" where
  "nanstd vs = fsqrt (nanvar vs)"

section \<open>Labeled arrays\<close>

text \<open>
  A DataArray of the program has the dimension \<^verbatim>\<open>time\<close> first and any number of
  further dimensions. The model flattens the further dimensions into one axis of
  labeled cells: \<open>Scalar\<close> is an array with no further dimension, \<open>Cells ls vs\<close> one
  with the cell labels \<open>ls\<close> and one entry per cell. A statistic (an array with
  \<^verbatim>\<open>time\<close> reduced away) is an \<open>fl grid\<close>; a DataArray with \<^verbatim>\<open>time\<close> has its time
  coordinate and one time series per cell. Two arrays that both have cells are taken to
  have the same further dimensions, so that their cells are matched by label; time
  labels and cell labels are integers. A well-formed array has one series per cell
  label and one entry per time label in every series (\<open>wf_cells\<close> and \<open>wf_time\<close>
  below); on such arrays every read by index stays in range.
\<close>

datatype 'a grid = Scalar 'a | Cells "int list" "'a list"

record DataArray =
  time :: "int list"
  series :: "fl list grid"

fun glabels :: "'a grid \<Rightarrow> int list option" where
  "glabels (Scalar a) = None"
| "glabels (Cells ls vs) = Some ls"

fun gvalues :: "'a grid \<Rightarrow> 'a list" where
  "gvalues (Scalar a) = [a]"
| "gvalues (Cells ls vs) = vs"

fun gmap :: "('a \<Rightarrow> 'b) \<Rightarrow> 'a grid \<Rightarrow> 'b grid" where
  "gmap f (Scalar a) = Scalar (f a)"
| "gmap f (Cells ls vs) = Cells ls (map f vs)"

fun gall :: "('a \<Rightarrow> bool) \<Rightarrow> 'a grid \<Rightarrow> bool" where
  "gall P (Scalar a) = P a"
| "gall P (Cells ls vs) = list_all P vs"

fun gex :: "('a \<Rightarrow> bool) \<Rightarrow> 'a grid \<Rightarrow> bool" where
  "gex P (Scalar a) = P a"
| "gex P (Cells ls vs) = list_ex P vs"

text \<open>
  Two indexes are joined as \<^verbatim>\<open>xr.align\<close> and xarray arithmetic do by default
  (\<^verbatim>\<open>join='inner'\<close>): equal indexes are kept as they are, otherwise the common
  labels are kept, here in the order of the first index. \<open>reindex\<close> selects the
  entries of an array at the labels of the joined index.
\<close>

definition inner_join :: "int list \<Rightarrow> int list \<Rightarrow> int list" where
  "inner_join la lb = (if la = lb then la else filter (\<lambda>l. l \<in> set lb) la)"

fun pos :: "int list \<Rightarrow> int \<Rightarrow> nat" where
  "pos [] l = 0"
| "pos (a # as) l = (if a = l then 0 else Suc (pos as l))"

definition reindex :: "int list \<Rightarrow> 'a list \<Rightarrow> int list \<Rightarrow> 'a list" where
  "reindex la vs ls = (if ls = la then vs else map (\<lambda>l. vs ! pos la l) ls)"

text \<open>
  An elementwise operation of two arrays broadcasts over the cells: an array without
  cells is repeated for every cell of the other, two arrays with cells are joined on
  their labels.
\<close>

fun bc :: "('a \<Rightarrow> 'b \<Rightarrow> 'c) \<Rightarrow> 'a grid \<Rightarrow> 'b grid \<Rightarrow> 'c grid" where
  "bc f (Scalar a) (Scalar b) = Scalar (f a b)"
| "bc f (Scalar a) (Cells lb bs) = Cells lb (map (f a) bs)"
| "bc f (Cells la as) (Scalar b) = Cells la (map (\<lambda>a. f a b) as)"
| "bc f (Cells la as) (Cells lb bs) =
     (let ls = inner_join la lb
      in Cells ls (map2 f (reindex la as ls) (reindex lb bs ls)))"

text \<open>The elementwise operations between arrays with and without \<^verbatim>\<open>time\<close>.\<close>

definition da_da :: "(fl \<Rightarrow> fl \<Rightarrow> fl) \<Rightarrow> DataArray \<Rightarrow> DataArray \<Rightarrow> DataArray" where
  "da_da f a b =
     (let ts = inner_join (time a) (time b)
      in \<lparr>time = ts,
          series = bc (\<lambda>sa sb. map2 f (reindex (time a) sa ts) (reindex (time b) sb ts))
                      (series a) (series b)\<rparr>)"

definition da_stat :: "(fl \<Rightarrow> fl \<Rightarrow> fl) \<Rightarrow> DataArray \<Rightarrow> fl grid \<Rightarrow> DataArray" where
  "da_stat f a s = \<lparr>time = time a, series = bc (\<lambda>sa v. map (\<lambda>u. f u v) sa) (series a) s\<rparr>"

definition stat_da :: "(fl \<Rightarrow> fl \<Rightarrow> fl) \<Rightarrow> fl grid \<Rightarrow> DataArray \<Rightarrow> DataArray" where
  "stat_da f s a = \<lparr>time = time a, series = bc (\<lambda>v sa. map (\<lambda>u. f v u) sa) s (series a)\<rparr>"

text \<open>Reductions along \<^verbatim>\<open>time\<close>; \<open>sum_axis0\<close> is \<^verbatim>\<open>np.sum(..., axis=0)\<close>, the axis of
  \<^verbatim>\<open>time\<close> since that dimension comes first.\<close>

definition mean_time :: "DataArray \<Rightarrow> fl grid" where
  "mean_time a = gmap nanmean (series a)"

definition std_time :: "DataArray \<Rightarrow> fl grid" where
  "std_time a = gmap nanstd (series a)"

definition sum_axis0 :: "DataArray \<Rightarrow> fl grid" where
  "sum_axis0 a = gmap nansum (series a)"

section \<open>Lag shifting and alignment\<close>

text \<open>
  \<^verbatim>\<open>x.shift(time=k)\<close> moves the values \<open>k\<close> steps towards later positions (earlier ones
  for negative \<open>k\<close>), keeps the coordinate and fills the vacated positions with NaN.
  \<^verbatim>\<open>dropna(dim='time', how='all')\<close> removes the time positions at which no cell holds
  a value other than NaN. \<open>lagged\<close> is the conditional statement that opens each of
  the four statistics, and \<open>align\<close> is \<^verbatim>\<open>xr.align\<close> of two arrays.
\<close>

definition shift_list :: "int \<Rightarrow> fl list \<Rightarrow> fl list" where
  "shift_list k s =
     (let n = length s
      in if 0 \<le> k then replicate (min (nat k) n) NaN @ take (n - nat k) s
         else drop (nat (- k)) s @ replicate (min (nat (- k)) n) NaN)"

definition shift_time :: "DataArray \<Rightarrow> int \<Rightarrow> DataArray" where
  "shift_time a k = \<lparr>time = time a, series = gmap (shift_list k) (series a)\<rparr>"

definition dropna_time_all :: "DataArray \<Rightarrow> DataArray" where
  "dropna_time_all a =
     (let keep = filter (\<lambda>i. gex (\<lambda>s. s ! i \<noteq> NaN) (series a)) [0..<length (time a)]
      in \<lparr>time = map (\<lambda>i. time a ! i) keep,
          series = gmap (\<lambda>s. map (\<lambda>i. s ! i) keep) (series a)\<rparr>)"

definition lagged :: "DataArray \<Rightarrow> int \<Rightarrow> DataArray" where
  "lagged a lag = (if lag \<noteq> 0 then dropna_time_all (shift_time a (- lag)) else a)"

fun galign :: "'a grid \<Rightarrow> 'a grid \<Rightarrow> 'a grid \<times> 'a grid" where
  "galign (Cells la as) (Cells lb bs) =
     (let ls = inner_join la lb
      in (Cells ls (reindex la as ls), Cells ls (reindex lb bs ls)))"
| "galign ga gb = (ga, gb)"

definition align :: "DataArray \<Rightarrow> DataArray \<Rightarrow> DataArray \<times> DataArray" where
  "align x y =
     (let ts = inner_join (time x) (time y);
          (gx, gy) = galign (series x) (series y)
      in (\<lparr>time = ts, series = gmap (\<lambda>s. reindex (time x) s ts) gx\<rparr>,
          \<lparr>time = ts, series = gmap (\<lambda>s. reindex (time y) s ts) gy\<rparr>))"

text \<open>
  \<^verbatim>\<open>xr.align\<close> leaves two equal indexes as they are; two indexes that differ are
  both reindexed to their common labels, and that raises \<^verbatim>\<open>ValueError\<close> when one of
  them holds a label twice. \<open>align\<close> gives the arrays that the call returns,
  \<open>align_raises\<close> says when it raises instead. The other calls that \<^verbatim>\<open>cov\<close>,
  \<^verbatim>\<open>cor\<close> and \<^verbatim>\<open>reg\<close> make do not raise (NumPy arithmetic answers a division by
  zero or an empty reduction with NaN or an infinity, and a warning), so \<open>raises\<close> is
  when one of them raises; \<^verbatim>\<open>linregress_ND\<close> raises then, and when its
  \<^verbatim>\<open>xr.DataArray(...)\<close> does. \<open>unique_labels\<close> is an array without a repeated time
  label or cell label.
\<close>

definition index_conflict :: "int list \<Rightarrow> int list \<Rightarrow> bool" where
  "index_conflict la lb = (la \<noteq> lb \<and> (\<not> distinct la \<or> \<not> distinct lb))"

fun galign_raises :: "'a grid \<Rightarrow> 'a grid \<Rightarrow> bool" where
  "galign_raises (Cells la as) (Cells lb bs) = index_conflict la lb"
| "galign_raises ga gb = False"

definition align_raises :: "DataArray \<Rightarrow> DataArray \<Rightarrow> bool" where
  "align_raises x y = (index_conflict (time x) (time y) \<or> galign_raises (series x) (series y))"

definition raises :: "DataArray \<Rightarrow> DataArray \<Rightarrow> int \<Rightarrow> int \<Rightarrow> bool" where
  "raises x0 y0 lagx lagy = align_raises (lagged x0 lagx) (lagged y0 lagy)"

definition unique_labels :: "DataArray \<Rightarrow> bool" where
  "unique_labels a =
     (distinct (time a) \<and> (case glabels (series a) of None \<Rightarrow> True | Some ls \<Rightarrow> distinct ls))"

section \<open>The statistics\<close>

text \<open>
  The four functions of \<^verbatim>\<open>mvstats.py\<close>, statement by statement. Each shifts its
  inputs by their lags, aligns them, and reduces along \<^verbatim>\<open>time\<close>; \<open>n\<close> is the number
  of time positions after alignment, a Python integer that NumPy converts to a double
  when it divides an array.
\<close>

definition fpow2 :: "fl \<Rightarrow> fl" where
  "fpow2 v = fmul v v"

definition cov :: "DataArray \<Rightarrow> DataArray \<Rightarrow> int \<Rightarrow> int \<Rightarrow> fl grid" where
  "cov x0 y0 lagx lagy =
     (let (x, y) = align (lagged x0 lagx) (lagged y0 lagy);
          n = length (time x);
          xmean = mean_time x;
          ymean = mean_time y;
          xstd = std_time x;
          ystd = std_time y;
          cov = gmap (\<lambda>v. fdiv v (Fin (real n)))
                  (sum_axis0 (da_da fmul (da_stat fsub x xmean) (da_stat fsub y ymean)))
      in cov)"

definition cor :: "DataArray \<Rightarrow> DataArray \<Rightarrow> int \<Rightarrow> int \<Rightarrow> fl grid" where
  "cor x0 y0 lagx lagy =
     (let (x, y) = align (lagged x0 lagx) (lagged y0 lagy);
          n = length (time x);
          xmean = mean_time x;
          ymean = mean_time y;
          xstd = std_time x;
          ystd = std_time y;
          cov = gmap (\<lambda>v. fdiv v (Fin (real n)))
                  (sum_axis0 (da_da fmul (da_stat fsub x xmean) (da_stat fsub y ymean)));
          cor = bc fdiv cov (bc fmul xstd ystd)
      in cor)"

definition reg :: "DataArray \<Rightarrow> DataArray \<Rightarrow> int \<Rightarrow> int \<Rightarrow> fl grid \<times> fl grid" where
  "reg x0 y0 lagx lagy =
     (let (x, y) = align (lagged x0 lagx) (lagged y0 lagy);
          n = length (time x);
          xmean = mean_time x;
          ymean = mean_time y;
          xstd = std_time x;
          ystd = std_time y;
          cov = gmap (\<lambda>v. fdiv v (Fin (real n)))
                  (sum_axis0 (da_da fmul (da_stat fsub x xmean) (da_stat fsub y ymean)));
          slope = bc fdiv cov (gmap fpow2 xstd);
          intercept = bc fsub ymean (bc fmul xmean slope)
      in (slope, intercept))"

text \<open>
  \<^verbatim>\<open>scipy.stats.t.sf\<close> takes the array of t-statistics as a plain NumPy array and
  returns one: NaN where the degrees of freedom are not positive or the argument is
  NaN, and the survival function \<open>1 - CDF\<close> elsewhere. The cumulative distribution
  function of Student's t distribution itself is a parameter \<open>tcdf\<close> of the model
  (degrees of freedom first). \<^verbatim>\<open>xr.DataArray(data, dims, coords)\<close> raises
  \<^verbatim>\<open>ValueError\<close> when the shape of the data is not that of the coordinates, and
  fills the coordinates' shape with a single value given as data.
\<close>

datatype error = ValueError

datatype 'a ndarray = Zero_d 'a | One_d "'a list"

fun values_of :: "'a grid \<Rightarrow> 'a ndarray" where
  "values_of (Scalar a) = Zero_d a"
| "values_of (Cells ls vs) = One_d vs"

fun nd_map :: "('a \<Rightarrow> 'b) \<Rightarrow> 'a ndarray \<Rightarrow> 'b ndarray" where
  "nd_map f (Zero_d a) = Zero_d (f a)"
| "nd_map f (One_d vs) = One_d (map f vs)"

fun DataArray_of :: "fl ndarray \<Rightarrow> int list option \<Rightarrow> error + fl grid" where
  "DataArray_of (Zero_d v) None = Inr (Scalar v)"
| "DataArray_of (Zero_d v) (Some ls) = Inr (Cells ls (replicate (length ls) v))"
| "DataArray_of (One_d vs) None = Inl ValueError"
| "DataArray_of (One_d vs) (Some ls) =
     (if length vs = length ls then Inr (Cells ls vs) else Inl ValueError)"

definition t_sf :: "(int \<Rightarrow> real \<Rightarrow> real) \<Rightarrow> fl \<Rightarrow> int \<Rightarrow> fl" where
  "t_sf tcdf t df =
     (if df \<le> 0 then NaN
      else case t of
             Fin r \<Rightarrow> Fin (1 - tcdf df r)
           | PInf \<Rightarrow> Fin 0
           | NInf \<Rightarrow> Fin 1
           | NaN \<Rightarrow> NaN)"

definition linregress_ND ::
  "(int \<Rightarrow> real \<Rightarrow> real) \<Rightarrow> DataArray \<Rightarrow> DataArray \<Rightarrow> int \<Rightarrow> int \<Rightarrow>
     error + (fl grid \<times> fl grid \<times> fl grid \<times> fl grid \<times> fl grid \<times> fl grid)" where
  "linregress_ND tcdf x0 y0 lagx lagy =
     (let (x, y) = align (lagged x0 lagx) (lagged y0 lagy);
          n = length (time x);
          xmean = mean_time x;
          ymean = mean_time y;
          xstd = std_time x;
          ystd = std_time y;
          cov = gmap (\<lambda>v. fdiv v (Fin (real n)))
                  (sum_axis0 (da_da fmul (da_stat fsub x xmean) (da_stat fsub y ymean)));
          cor = bc fdiv cov (bc fmul xstd ystd);
          slope = bc fdiv cov (gmap fpow2 xstd);
          intercept = bc fsub ymean (bc fmul xmean slope);
          tstats = bc fdiv (gmap (\<lambda>c. fmul c (fsqrt (Fin (real_of_int (int n - 2))))) cor)
                     (gmap fsqrt (gmap (\<lambda>c. fsub (Fin 1) (fpow2 c)) cor));
          stderr = bc fdiv slope tstats;
          pval = nd_map (\<lambda>p. fmul p (Fin 2))
                   (nd_map (\<lambda>t. t_sf tcdf t (int n - 2)) (values_of (gmap fabs tstats)))
      in case DataArray_of pval (glabels cor) of
           Inl e \<Rightarrow> Inl e
         | Inr pval \<Rightarrow> Inr (cov, cor, slope, intercept, pval, stderr))"

section \<open>Detrending\<close>

text \<open>
  \<^verbatim>\<open>y.rolling(time=w, center=True)\<close> raises \<^verbatim>\<open>ValueError('window must be > 0')\<close>
  unless \<open>0 < w\<close>, and the moving average of an array without any time position
  raises \<^verbatim>\<open>ValueError\<close> too. Its \<^verbatim>\<open>mean()\<close> keeps the time coordinate; the window of position
  \<open>i\<close> covers the \<open>w\<close> positions from \<open>i - w div 2\<close> on, and the result is NaN where
  the window leaves the array or holds a NaN (\<^verbatim>\<open>min_periods\<close> defaults to the window
  size). \<^verbatim>\<open>y.mean()\<close> without a dimension averages all entries that are not NaN.
\<close>

definition rolling_mean_list :: "nat \<Rightarrow> fl list \<Rightarrow> fl list" where
  "rolling_mean_list w s =
     map (\<lambda>i. if w div 2 \<le> i \<and> i - w div 2 + w \<le> length s
              then (let win = take w (drop (i - w div 2) s)
                    in if list_ex (\<lambda>v. v = NaN) win then NaN
                       else fdiv (fsum win) (Fin (real w)))
              else NaN)
         [0..<length s]"

definition rolling_mean :: "DataArray \<Rightarrow> int \<Rightarrow> error + DataArray" where
  "rolling_mean a w =
     (if w \<le> 0 \<or> time a = [] then Inl ValueError
      else Inr \<lparr>time = time a, series = gmap (rolling_mean_list (nat w)) (series a)\<rparr>)"

definition mean_all :: "DataArray \<Rightarrow> fl grid" where
  "mean_all a = Scalar (nanmean (concat (gvalues (series a))))"

definition arange :: "nat \<Rightarrow> fl list" where
  "arange n = map (\<lambda>i. Fin (real i)) [0..<n]"

definition detrend_ND_xr :: "DataArray \<Rightarrow> int \<Rightarrow> error + DataArray" where
  "detrend_ND_xr y rolling_mean_window =
     (case rolling_mean y rolling_mean_window of
        Inl e \<Rightarrow> Inl e
      | Inr y_deseason \<Rightarrow>
          (let x = \<lparr>time = time y, series = Scalar (arange (length (time y)))\<rparr>;
               (slope, intercept) = reg x y_deseason 0 0;
               y_trend = da_stat fadd (stat_da fmul slope x) intercept;
               det = da_stat fadd (da_da fsub y y_trend) (mean_all y)
           in Inr det))"

section \<open>Population statistics of real-valued series\<close>

text \<open>
  The textbook statistics of a sample of real numbers, with denominator \<open>n\<close>, and the
  DataArray that holds given real numbers. \<open>cov1\<close> is the covariance as the program
  computes it inside one cell.
\<close>

definition pop_mean :: "real list \<Rightarrow> real" where
  "pop_mean xs = sum_list xs / real (length xs)"

definition pop_cov :: "real list \<Rightarrow> real list \<Rightarrow> real" where
  "pop_cov xs ys =
     (\<Sum>i<length xs. (xs ! i - pop_mean xs) * (ys ! i - pop_mean ys)) / real (length xs)"

definition pop_var :: "real list \<Rightarrow> real" where
  "pop_var xs = (\<Sum>i<length xs. (xs ! i - pop_mean xs)\<^sup>2) / real (length xs)"

definition pop_std :: "real list \<Rightarrow> real" where
  "pop_std xs = sqrt (pop_var xs)"

definition real_array :: "int list \<Rightarrow> real list grid \<Rightarrow> DataArray" where
  "real_array ts g = \<lparr>time = ts, series = gmap (map Fin) g\<rparr>"

definition cov1 :: "nat \<Rightarrow> fl list \<Rightarrow> fl list \<Rightarrow> fl" where
  "cov1 n sa sb =
     fdiv (nansum (map2 fmul (map (\<lambda>u. fsub u (nanmean sa)) sa)
                             (map (\<lambda>u. fsub u (nanmean sb)) sb)))
          (Fin (real n))"

text \<open>The check \<^verbatim>\<open>mean(y) == slope*mean(x) + intercept\<close> on the pair that \<open>reg\<close>
  returns, in every cell.\<close>

definition mean_identity :: "DataArray \<Rightarrow> DataArray \<Rightarrow> bool" where
  "mean_identity x y =
     (let (slope, intercept) = reg x y 0 0
      in gall (\<lambda>b. b) (bc feq (mean_time y) (bc fadd (bc fmul slope (mean_time x)) intercept)))"

text \<open>
  The number of time positions left after lag shifting and alignment, the t-statistic
  and the two-sided p-value of one cell as the specification words them, and the
  invariant of a labeled axis: as many entries as labels.
\<close>

definition n_aligned :: "DataArray \<Rightarrow> DataArray \<Rightarrow> int \<Rightarrow> int \<Rightarrow> nat" where
  "n_aligned x y lagx lagy = length (time (fst (align (lagged x lagx) (lagged y lagy))))"

definition tstat :: "nat \<Rightarrow> fl \<Rightarrow> fl" where
  "tstat n c =
     fdiv (fmul c (fsqrt (Fin (real_of_int (int n - 2))))) (fsqrt (fsub (Fin 1) (fmul c c)))"

definition pvalue :: "(int \<Rightarrow> real \<Rightarrow> real) \<Rightarrow> nat \<Rightarrow> fl \<Rightarrow> fl" where
  "pvalue tcdf n t = fmul (t_sf tcdf (fabs t) (int n - 2)) (Fin 2)"

fun wf_cells :: "'a grid \<Rightarrow> bool" where
  "wf_cells (Scalar a) = True"
| "wf_cells (Cells ls vs) = (length vs = length ls)"

definition is_nan :: "fl \<Rightarrow> bool" where
  "is_nan v = (v = NaN)"

text \<open>The labels of the cells of an elementwise operation, and the relation between
  the cells of two aligned arrays: where both have cells, the labels are the same.\<close>

fun lab_join :: "int list option \<Rightarrow> int list option \<Rightarrow> int list option" where
  "lab_join None lb = lb"
| "lab_join (Some la) None = Some la"
| "lab_join (Some la) (Some lb) = Some (inner_join la lb)"

fun compat :: "int list option \<Rightarrow> int list option \<Rightarrow> bool" where
  "compat (Some la) (Some lb) = (la = lb)"
| "compat la lb = True"

text \<open>
  Correlation, slope and intercept as the program computes them inside one cell, the
  invariant of the time axis (every series has one entry per time position), and the
  values the specification calls undefined.
\<close>

definition cor1 :: "nat \<Rightarrow> fl list \<Rightarrow> fl list \<Rightarrow> fl" where
  "cor1 n sa sb = fdiv (cov1 n sa sb) (fmul (nanstd sa) (nanstd sb))"

definition slope1 :: "nat \<Rightarrow> fl list \<Rightarrow> fl list \<Rightarrow> fl" where
  "slope1 n sa sb = fdiv (cov1 n sa sb) (fpow2 (nanstd sa))"

definition icpt1 :: "nat \<Rightarrow> fl list \<Rightarrow> fl list \<Rightarrow> fl" where
  "icpt1 n sa sb = fsub (nanmean sb) (fmul (nanmean sa) (slope1 n sa sb))"

definition wf_time :: "DataArray \<Rightarrow> bool" where
  "wf_time a = gall (\<lambda>s. length s = length (time a)) (series a)"

definition is_undefined :: "fl \<Rightarrow> bool" where
  "is_undefined v = (v = NaN \<or> v = PInf \<or> v = NInf)"

text \<open>
  A constant series of an integer value \<open>c\<close> on \<open>n\<close> positions with \<open>n * |c| < 2\<^sup>5\<^sup>3\<close>:
  every partial sum of its entries is an integer below \<open>2\<^sup>5\<^sup>3\<close>, so that the doubles of
  the program compute its mean, its deviations and its standard deviation without
  rounding, as the exact arithmetic of this model does.
\<close>

definition const_int :: "real list \<Rightarrow> bool" where
  "const_int s =
     (list_all (\<lambda>v. v = real_of_int \<lfloor>hd s\<rfloor>) s \<and> real (length s) * \<bar>hd s\<bar> < 2 ^ 53)"

text \<open>
  The series \<open>y\<close> shifted one step backward by hand: the values from the second
  position on, at the time labels without the last one. The hand-made shift loses one
  position only; \<open>defined_after_first\<close> says that every position of \<open>y\<close> after the
  first holds a value in some cell, so that no other position is entirely undefined.
\<close>

definition hand_shifted :: "DataArray \<Rightarrow> DataArray" where
  "hand_shifted y = \<lparr>time = butlast (time y), series = gmap tl (series y)\<rparr>"

definition defined_after_first :: "DataArray \<Rightarrow> bool" where
  "defined_after_first y =
     list_all (\<lambda>i. gex (\<lambda>s. s ! i \<noteq> NaN) (series y)) [1..<length (time y)]"

section \<open>Finite series\<close>

text \<open>On a series of finite values nothing is skipped, and the reductions are the
  textbook statistics.\<close>

lemma notnull_Fin [simp]: "notnull (map Fin rs) = map Fin rs"
  by (induction rs) (auto simp: notnull_def)

lemma fsum_Fin [simp]: "fsum (map Fin rs) = Fin (sum_list rs)"
  by (induction rs) (auto simp: fsum_def)

lemma nansum_Fin [simp]: "nansum (map Fin rs) = Fin (sum_list rs)"
  by (simp add: nansum_def)

lemma nansum_Fin_map: "nansum (map (\<lambda>z. Fin (h z)) zs) = Fin (sum_list (map h zs))"
  using nansum_Fin [of "map h zs"] by (simp add: comp_def)

lemma nanmean_Fin: "rs \<noteq> [] \<Longrightarrow> nanmean (map Fin rs) = Fin (pop_mean rs)"
  by (simp add: nanmean_def pop_mean_def)

lemma cov1_Fin:
  assumes "xs \<noteq> []" "length xs = length ys"
  shows "cov1 (length xs) (map Fin xs) (map Fin ys) = Fin (pop_cov xs ys)"
proof -
  have ys: "ys \<noteq> []" using assms by auto
  have "sum_list (map2 (*) (map (\<lambda>r. r - pop_mean xs) xs) (map (\<lambda>r. r - pop_mean ys) ys))
      = (\<Sum>i<length xs. (xs ! i - pop_mean xs) * (ys ! i - pop_mean ys))"
    using assms(2) by (simp add: sum_list_sum_nth atLeast0LessThan)
  then show ?thesis
    using assms ys
    by (simp add: cov1_def nanmean_Fin fsub_def zip_map1 zip_map2 case_prod_beta comp_def
        nansum_Fin_map pop_cov_def)
qed

lemma pop_cov_self: "pop_cov xs xs = pop_var xs"
  by (simp add: pop_cov_def pop_var_def power2_eq_square)

lemma pop_var_nonneg: "0 \<le> pop_var xs"
  by (simp add: pop_var_def sum_nonneg)

lemma pop_std_sq: "pop_std xs * pop_std xs = pop_var xs"
  using pop_var_nonneg [of xs] by (simp add: pop_std_def)

lemma nanvar_Fin:
  assumes "xs \<noteq> []"
  shows "nanvar (map Fin xs) = Fin (pop_var xs)"
proof -
  have "sum_list (map (\<lambda>r. (r - pop_mean xs) * (r - pop_mean xs)) xs)
      = (\<Sum>i<length xs. (xs ! i - pop_mean xs)\<^sup>2)"
    by (simp add: sum_list_sum_nth atLeast0LessThan power2_eq_square)
  then show ?thesis
    using assms
    by (simp add: nanvar_def nanmean_Fin fsub_def comp_def pop_var_def Let_def
        fsum_Fin [of "map h zs" for h zs, simplified comp_def map_map])
qed

lemma nanstd_Fin: "xs \<noteq> [] \<Longrightarrow> nanstd (map Fin xs) = Fin (pop_std xs)"
  using pop_var_nonneg [of xs] by (simp add: nanstd_def nanvar_Fin pop_std_def)

lemma cells_Fin:
  assumes "a \<noteq> []" "length a = length b"
  shows "cov1 (length a) (map Fin a) (map Fin b) = Fin (pop_cov a b)"
    and "cor1 (length a) (map Fin a) (map Fin b)
           = fdiv (Fin (pop_cov a b)) (Fin (pop_std a * pop_std b))"
    and "slope1 (length a) (map Fin a) (map Fin b) = fdiv (Fin (pop_cov a b)) (Fin (pop_var a))"
    and "icpt1 (length a) (map Fin a) (map Fin b)
           = fsub (Fin (pop_mean b)) (fmul (Fin (pop_mean a))
                                        (fdiv (Fin (pop_cov a b)) (Fin (pop_var a))))"
proof -
  from assms have b: "b \<noteq> []" by auto
  show c: "cov1 (length a) (map Fin a) (map Fin b) = Fin (pop_cov a b)"
    using assms by (rule cov1_Fin)
  show "cor1 (length a) (map Fin a) (map Fin b)
           = fdiv (Fin (pop_cov a b)) (Fin (pop_std a * pop_std b))"
    using assms(1) b by (simp add: cor1_def c nanstd_Fin)
  show s: "slope1 (length a) (map Fin a) (map Fin b)
           = fdiv (Fin (pop_cov a b)) (Fin (pop_var a))"
    using assms(1) by (simp add: slope1_def c nanstd_Fin fpow2_def pop_std_sq)
  show "icpt1 (length a) (map Fin a) (map Fin b)
           = fsub (Fin (pop_mean b)) (fmul (Fin (pop_mean a))
                                        (fdiv (Fin (pop_cov a b)) (Fin (pop_var a))))"
    unfolding icpt1_def s nanmean_Fin [OF assms(1)] nanmean_Fin [OF b] ..
qed

section \<open>Cells\<close>

text \<open>The vectorised statements act cell by cell on arrays whose cells are
  compatible: the same labels, or no cells on one side.\<close>

lemma inner_join_same [simp]: "inner_join la la = la"
  by (simp add: inner_join_def)

lemma compat_same [simp]: "compat la la"
  by (cases la) auto

lemma lab_join_same [simp]: "lab_join la la = la"
  by (cases la) auto

lemma lab_join_compat:
  "compat la lb \<Longrightarrow> lab_join (lab_join la lb) la = lab_join la lb"
  "compat la lb \<Longrightarrow> lab_join (lab_join la lb) lb = lab_join la lb"
  "compat la lb \<Longrightarrow> lab_join la (lab_join la lb) = lab_join la lb"
  "compat la lb \<Longrightarrow> lab_join lb (lab_join la lb) = lab_join la lb"
  by (cases la; cases lb; simp)+

lemma gmap_ident [simp]: "gmap (\<lambda>s. s) g = g"
  by (cases g) auto

lemma gmap_gmap: "gmap f (gmap g a) = gmap (\<lambda>u. f (g u)) a"
  by (cases a) auto

lemma glabels_gmap [simp]: "glabels (gmap f g) = glabels g"
  by (cases g) auto

lemma wf_cells_gmap [simp]: "wf_cells (gmap f g) = wf_cells g"
  by (cases g) auto

lemma gall_gmap: "gall P (gmap f g) = gall (\<lambda>a. P (f a)) g"
  by (cases g) (auto simp: list_all_iff)

lemma gall_True [simp]: "gall (\<lambda>a. True) g"
  by (cases g) (auto simp: list_all_iff)

lemma gall_conj: "gall P g \<Longrightarrow> gall Q g \<Longrightarrow> gall (\<lambda>a. P a \<and> Q a) g"
  by (cases g) (auto simp: list_all_iff)

lemma gall_mono: "gall P g \<Longrightarrow> (\<And>a. P a \<Longrightarrow> Q a) \<Longrightarrow> gall Q g"
  by (cases g) (auto simp: list_all_iff)

lemma gmap_cong_gall:
  assumes "gall P g" and "\<And>a. P a \<Longrightarrow> f a = f' a"
  shows "gmap f g = gmap f' g"
  using assms by (cases g) (auto simp: list_all_iff)

lemma reindex_same [simp]: "reindex la vs la = vs"
  by (simp add: reindex_def)

lemma length_reindex: "length vs = length la \<Longrightarrow> length (reindex la vs ls) = length ls"
  by (auto simp: reindex_def)

lemma glabels_bc: "glabels (bc f g h) = lab_join (glabels g) (glabels h)"
  by (cases g; cases h) (auto simp: Let_def)

lemma wf_cells_bc: "wf_cells g \<Longrightarrow> wf_cells h \<Longrightarrow> wf_cells (bc f g h)"
  by (cases g; cases h) (auto simp: Let_def length_reindex)

lemma map2_map2_map2:
  "map2 f (map2 g as bs) (map2 h as bs) = map2 (\<lambda>u v. f (g u v) (h u v)) as bs"
proof (induction as arbitrary: bs)
  case Nil
  then show ?case by simp
next
  case (Cons a as)
  then show ?case by (cases bs) auto
qed

lemma map2_map2_map_fst:
  "map2 f (map2 g as bs) (map p as) = map2 (\<lambda>u v. f (g u v) (p u)) as bs"
proof (induction as arbitrary: bs)
  case Nil
  then show ?case by simp
next
  case (Cons a as)
  then show ?case by (cases bs) auto
qed

lemma map2_map_fst_map2:
  "map2 f (map p as) (map2 g as bs) = map2 (\<lambda>u v. f (p u) (g u v)) as bs"
proof (induction as arbitrary: bs)
  case Nil
  then show ?case by simp
next
  case (Cons a as)
  then show ?case by (cases bs) auto
qed

lemma map2_map_snd_map2:
  "map2 f (map q bs) (map2 g as bs) = map2 (\<lambda>u v. f (q v) (g u v)) as bs"
proof (induction as arbitrary: bs)
  case Nil
  then show ?case by simp
next
  case (Cons a as)
  then show ?case by (cases bs) auto
qed

lemma map2_map_map_same: "map2 f (map p xs) (map q xs) = map (\<lambda>x. f (p x) (q x)) xs"
  by (induction xs) auto

lemma bc_gmap_self: "bc f g (gmap h g) = gmap (\<lambda>a. f a (h a)) g"
  by (cases g) (auto simp: zip_map2 zip_same_conv_map)

lemma bc_gmap_gmap_same: "bc f (gmap p g) (gmap q g) = gmap (\<lambda>u. f (p u) (q u)) g"
  by (cases g) (auto simp: zip_map1 zip_map2 zip_same_conv_map)

lemma bc_same: "bc f g g = gmap (\<lambda>a. f a a) g"
  by (cases g) (auto simp: zip_same_conv_map)

lemma gmap_bc: "gmap f (bc g a b) = bc (\<lambda>u v. f (g u v)) a b"
  by (cases a; cases b) (auto simp: Let_def)

lemma bc_gmap_gmap:
  "compat (glabels g) (glabels h) \<Longrightarrow>
   bc f (gmap p g) (gmap q h) = bc (\<lambda>a b. f (p a) (q b)) g h"
  by (cases g; cases h) (auto simp: zip_map1 zip_map2 case_prod_beta)

lemma bc_bc_bc:
  "compat (glabels a) (glabels b) \<Longrightarrow>
   bc f (bc g a b) (bc h a b) = bc (\<lambda>u v. f (g u v) (h u v)) a b"
  by (cases a; cases b) (simp_all add: map2_map_map_same case_prod_beta)

lemma bc_bc_gmap_fst:
  "compat (glabels a) (glabels b) \<Longrightarrow>
   bc f (bc g a b) (gmap p a) = bc (\<lambda>u v. f (g u v) (p u)) a b"
  by (cases a; cases b) (simp_all add: map2_map2_map_fst map2_map_map_same)

lemma bc_gmap_fst_bc:
  "compat (glabels a) (glabels b) \<Longrightarrow>
   bc f (gmap p a) (bc g a b) = bc (\<lambda>u v. f (p u) (g u v)) a b"
  by (cases a; cases b) (simp_all add: map2_map_fst_map2 map2_map_map_same)

lemma bc_gmap_snd_bc:
  "compat (glabels a) (glabels b) \<Longrightarrow>
   bc f (gmap q b) (bc g a b) = bc (\<lambda>u v. f (q v) (g u v)) a b"
  by (cases a; cases b) (simp_all add: map2_map_snd_map2 map2_map_map_same)

lemma bc_cong_gall:
  assumes "gall P g" "gall Q h" "compat (glabels g) (glabels h)"
    and "\<And>a b. P a \<Longrightarrow> Q b \<Longrightarrow> f a b = f' a b"
  shows "bc f g h = bc f' g h"
  using assms by (cases g; cases h) (auto simp: list_all_iff set_zip)

lemma gall_bc:
  assumes "gall P g" "gall Q h" "compat (glabels g) (glabels h)"
    and "\<And>a b. P a \<Longrightarrow> Q b \<Longrightarrow> R (f a b)"
  shows "gall R (bc f g h)"
  using assms by (cases g; cases h) (auto simp: list_all_iff set_zip)

section \<open>Alignment\<close>

lemma pos_less: "l \<in> set la \<Longrightarrow> pos la l < length la"
  by (induction la) auto

lemma galign_same: "glabels g = glabels h \<Longrightarrow> galign g h = (g, h)"
  by (cases g; cases h) auto

lemma align_same:
  "time x = time y \<Longrightarrow> glabels (series x) = glabels (series y) \<Longrightarrow> align x y = (x, y)"
  by (cases x; cases y) (simp add: align_def galign_same)

lemma set_inner_join: "set (inner_join la lb) \<subseteq> set la \<inter> set lb"
  by (auto simp: inner_join_def)

lemma set_reindex:
  assumes "set ls \<subseteq> set la" "length vs = length la"
  shows "set (reindex la vs ls) \<subseteq> set vs"
proof (cases "ls = la")
  case True
  then show ?thesis by simp
next
  case False
  have "vs ! pos la l \<in> set vs" if "l \<in> set ls" for l
    using that assms pos_less [of l la] by auto
  with False show ?thesis by (auto simp: reindex_def)
qed

lemma list_all_reindex:
  assumes "list_all P vs" "length vs = length la"
  shows "list_all P (reindex la vs (inner_join la lb))"
    and "list_all P (reindex la vs (inner_join lb la))"
proof -
  have "set (reindex la vs (inner_join la lb)) \<subseteq> set vs"
    using set_inner_join [of la lb] assms(2) by (intro set_reindex) auto
  with assms(1) show "list_all P (reindex la vs (inner_join la lb))"
    by (auto simp: list_all_iff)
  have "set (reindex la vs (inner_join lb la)) \<subseteq> set vs"
    using set_inner_join [of lb la] assms(2) by (intro set_reindex) auto
  with assms(1) show "list_all P (reindex la vs (inner_join lb la))"
    by (auto simp: list_all_iff)
qed

lemma galign_compat:
  "galign g h = (g', h') \<Longrightarrow> compat (glabels g') (glabels h')"
  by (cases g; cases h) (auto simp: Let_def)

lemma galign_wf_cells:
  "galign g h = (g', h') \<Longrightarrow> wf_cells g \<Longrightarrow> wf_cells h \<Longrightarrow> wf_cells g' \<and> wf_cells h'"
  by (cases g; cases h) (auto simp: Let_def length_reindex)

lemma galign_gall_fst:
  "galign g h = (g', h') \<Longrightarrow> gall P g \<Longrightarrow> wf_cells g \<Longrightarrow> gall P g'"
  by (cases g; cases h) (auto simp: Let_def list_all_reindex)

lemma galign_gall_snd:
  "galign g h = (g', h') \<Longrightarrow> gall Q h \<Longrightarrow> wf_cells h \<Longrightarrow> gall Q h'"
  by (cases g; cases h) (auto simp: Let_def list_all_reindex)

lemma align_props:
  assumes "align x y = (x', y')"
  shows "time y' = time x'"
    and "compat (glabels (series x')) (glabels (series y'))"
    and "wf_cells (series x) \<Longrightarrow> wf_cells (series y) \<Longrightarrow>
         wf_cells (series x') \<and> wf_cells (series y')"
    and "wf_cells (series x) \<Longrightarrow> wf_time x \<Longrightarrow> wf_time x'"
    and "wf_cells (series y) \<Longrightarrow> wf_time y \<Longrightarrow> wf_time y'"
proof -
  obtain g' h' where g: "galign (series x) (series y) = (g', h')"
    by (cases "galign (series x) (series y)")
  from assms g have x': "series x' = gmap (\<lambda>s. reindex (time x) s (time x')) g'"
    and y': "series y' = gmap (\<lambda>s. reindex (time y) s (time x')) h'"
    and t: "time y' = time x'"
    by (auto simp: align_def Let_def)
  show "time y' = time x'" by (rule t)
  show "compat (glabels (series x')) (glabels (series y'))"
    using galign_compat [OF g] by (simp add: x' y')
  show "wf_cells (series x') \<and> wf_cells (series y')"
    if "wf_cells (series x)" "wf_cells (series y)"
    using galign_wf_cells [OF g that] by (simp add: x' y')
  show "wf_time x'" if "wf_cells (series x)" "wf_time x"
  proof -
    have "gall (\<lambda>s. length s = length (time x)) g'"
      using galign_gall_fst [OF g] that by (simp add: wf_time_def)
    then have "gall (\<lambda>s. length (reindex (time x) s (time x')) = length (time x')) g'"
      by (rule gall_mono) (rule length_reindex)
    then show ?thesis by (simp add: wf_time_def x' gall_gmap)
  qed
  show "wf_time y'" if "wf_cells (series y)" "wf_time y"
  proof -
    have "gall (\<lambda>s. length s = length (time y)) h'"
      using galign_gall_snd [OF g] that by (simp add: wf_time_def)
    then have "gall (\<lambda>s. length (reindex (time y) s (time x')) = length (time x')) h'"
      by (rule gall_mono) (rule length_reindex)
    then show ?thesis by (simp add: wf_time_def y' t gall_gmap)
  qed
qed

lemma length_shift_list [simp]: "length (shift_list k s) = length s"
  by (auto simp: shift_list_def Let_def)

lemma wf_cells_lagged [simp]: "wf_cells (series (lagged a lag)) = wf_cells (series a)"
  by (simp add: lagged_def dropna_time_all_def shift_time_def Let_def)

lemma wf_time_lagged: "wf_time a \<Longrightarrow> wf_time (lagged a lag)"
  by (simp add: lagged_def dropna_time_all_def shift_time_def Let_def wf_time_def gall_gmap)

section \<open>The statistics, cell by cell\<close>

lemma stats_of_aligned:
  "cov x0 y0 lagx lagy =
     (case align (lagged x0 lagx) (lagged y0 lagy) of (x, y) \<Rightarrow>
        gmap (\<lambda>v. fdiv v (Fin (real (length (time x)))))
          (sum_axis0 (da_da fmul (da_stat fsub x (mean_time x)) (da_stat fsub y (mean_time y)))))"
  "cor x0 y0 lagx lagy =
     (case align (lagged x0 lagx) (lagged y0 lagy) of (x, y) \<Rightarrow>
        bc fdiv (cov x0 y0 lagx lagy) (bc fmul (std_time x) (std_time y)))"
  "reg x0 y0 lagx lagy =
     (case align (lagged x0 lagx) (lagged y0 lagy) of (x, y) \<Rightarrow>
        (bc fdiv (cov x0 y0 lagx lagy) (gmap fpow2 (std_time x)),
         bc fsub (mean_time y)
           (bc fmul (mean_time x) (bc fdiv (cov x0 y0 lagx lagy) (gmap fpow2 (std_time x))))))"
  by (simp_all add: cov_def cor_def reg_def Let_def split: prod.splits)

lemma stats_cells:
  assumes "align (lagged x0 lagx) (lagged y0 lagy) = (x, y)"
  shows "cov x0 y0 lagx lagy = bc (cov1 (length (time x))) (series x) (series y)"
    and "cor x0 y0 lagx lagy = bc (cor1 (length (time x))) (series x) (series y)"
    and "reg x0 y0 lagx lagy = (bc (slope1 (length (time x))) (series x) (series y),
                                bc (icpt1 (length (time x))) (series x) (series y))"
proof -
  note t = align_props(1) [OF assms] and c = align_props(2) [OF assms]
  show cv: "cov x0 y0 lagx lagy = bc (cov1 (length (time x))) (series x) (series y)"
    by (simp add: stats_of_aligned(1) assms t c mean_time_def sum_axis0_def da_da_def da_stat_def
        bc_gmap_self gmap_bc bc_gmap_gmap cov1_def [abs_def])
  show "cor x0 y0 lagx lagy = bc (cor1 (length (time x))) (series x) (series y)"
    by (simp add: stats_of_aligned(2) assms cv c std_time_def bc_gmap_gmap bc_bc_bc
        cor1_def [abs_def])
  show "reg x0 y0 lagx lagy = (bc (slope1 (length (time x))) (series x) (series y),
                               bc (icpt1 (length (time x))) (series x) (series y))"
    by (simp add: stats_of_aligned(3) assms cv c std_time_def mean_time_def gmap_gmap
        bc_bc_gmap_fst bc_gmap_fst_bc bc_gmap_snd_bc slope1_def [abs_def] icpt1_def [abs_def])
qed

lemma align_real:
  "glabels gx = glabels gy \<Longrightarrow>
   align (lagged (real_array ts gx) 0) (lagged (real_array ts gy) 0)
     = (real_array ts gx, real_array ts gy)"
  by (simp add: lagged_def align_same real_array_def)

lemma cells_real:
  assumes "ts \<noteq> []" "length a = length ts" "length b = length ts"
  shows "cov1 (length ts) (map Fin a) (map Fin b) = Fin (pop_cov a b)"
    and "cor1 (length ts) (map Fin a) (map Fin b)
           = fdiv (Fin (pop_cov a b)) (Fin (pop_std a * pop_std b))"
    and "slope1 (length ts) (map Fin a) (map Fin b) = fdiv (Fin (pop_cov a b)) (Fin (pop_var a))"
    and "icpt1 (length ts) (map Fin a) (map Fin b)
           = fsub (Fin (pop_mean b)) (fmul (Fin (pop_mean a))
                                        (fdiv (Fin (pop_cov a b)) (Fin (pop_var a))))"
proof -
  from assms have ne: "a \<noteq> []" and eq: "length a = length b" by auto
  show "cov1 (length ts) (map Fin a) (map Fin b) = Fin (pop_cov a b)"
    using cells_Fin(1) [OF ne eq] by (simp only: assms(2))
  show "cor1 (length ts) (map Fin a) (map Fin b)
           = fdiv (Fin (pop_cov a b)) (Fin (pop_std a * pop_std b))"
    using cells_Fin(2) [OF ne eq] by (simp only: assms(2))
  show "slope1 (length ts) (map Fin a) (map Fin b) = fdiv (Fin (pop_cov a b)) (Fin (pop_var a))"
    using cells_Fin(3) [OF ne eq] by (simp only: assms(2))
  show "icpt1 (length ts) (map Fin a) (map Fin b)
           = fsub (Fin (pop_mean b)) (fmul (Fin (pop_mean a))
                                        (fdiv (Fin (pop_cov a b)) (Fin (pop_var a))))"
    using cells_Fin(4) [OF ne eq] by (simp only: assms(2))
qed

lemma stats_real:
  assumes "ts \<noteq> []" "gall (\<lambda>s. length s = length ts) gx" "gall (\<lambda>s. length s = length ts) gy"
    and "glabels gx = glabels gy"
  shows "cov (real_array ts gx) (real_array ts gy) 0 0 = bc (\<lambda>xs ys. Fin (pop_cov xs ys)) gx gy"
    and "cor (real_array ts gx) (real_array ts gy) 0 0
           = bc (\<lambda>xs ys. fdiv (Fin (pop_cov xs ys)) (Fin (pop_std xs * pop_std ys))) gx gy"
    and "reg (real_array ts gx) (real_array ts gy) 0 0
       = (bc (\<lambda>xs ys. fdiv (Fin (pop_cov xs ys)) (Fin (pop_var xs))) gx gy,
          bc (\<lambda>xs ys. fsub (Fin (pop_mean ys))
                        (fmul (Fin (pop_mean xs)) (fdiv (Fin (pop_cov xs ys)) (Fin (pop_var xs)))))
             gx gy)"
proof -
  note a = stats_cells [OF align_real [OF assms(4), of ts]]
  have c: "compat (glabels gx) (glabels gy)" using assms(4) by simp
  have t: "length (time (real_array ts gx)) = length ts"
    and sx: "series (real_array ts gx) = gmap (map Fin) gx"
    and sy: "series (real_array ts gy) = gmap (map Fin) gy"
    by (simp_all add: real_array_def)
  have "bc (\<lambda>xs ys. cov1 (length ts) (map Fin xs) (map Fin ys)) gx gy
      = bc (\<lambda>xs ys. Fin (pop_cov xs ys)) gx gy"
    using assms(2,3) c by (rule bc_cong_gall) (rule cells_real(1) [OF assms(1)])
  then show "cov (real_array ts gx) (real_array ts gy) 0 0
           = bc (\<lambda>xs ys. Fin (pop_cov xs ys)) gx gy"
    by (simp only: a(1) t sx sy bc_gmap_gmap [OF c])
  have "bc (\<lambda>xs ys. cor1 (length ts) (map Fin xs) (map Fin ys)) gx gy
      = bc (\<lambda>xs ys. fdiv (Fin (pop_cov xs ys)) (Fin (pop_std xs * pop_std ys))) gx gy"
    using assms(2,3) c by (rule bc_cong_gall) (rule cells_real(2) [OF assms(1)])
  then show "cor (real_array ts gx) (real_array ts gy) 0 0
           = bc (\<lambda>xs ys. fdiv (Fin (pop_cov xs ys)) (Fin (pop_std xs * pop_std ys))) gx gy"
    by (simp only: a(2) t sx sy bc_gmap_gmap [OF c])
  have s: "bc (\<lambda>xs ys. slope1 (length ts) (map Fin xs) (map Fin ys)) gx gy
      = bc (\<lambda>xs ys. fdiv (Fin (pop_cov xs ys)) (Fin (pop_var xs))) gx gy"
    using assms(2,3) c by (rule bc_cong_gall) (rule cells_real(3) [OF assms(1)])
  have i: "bc (\<lambda>xs ys. icpt1 (length ts) (map Fin xs) (map Fin ys)) gx gy
      = bc (\<lambda>xs ys. fsub (Fin (pop_mean ys))
                        (fmul (Fin (pop_mean xs)) (fdiv (Fin (pop_cov xs ys)) (Fin (pop_var xs)))))
             gx gy"
    using assms(2,3) c by (rule bc_cong_gall) (rule cells_real(4) [OF assms(1)])
  show "reg (real_array ts gx) (real_array ts gy) 0 0
       = (bc (\<lambda>xs ys. fdiv (Fin (pop_cov xs ys)) (Fin (pop_var xs))) gx gy,
          bc (\<lambda>xs ys. fsub (Fin (pop_mean ys))
                        (fmul (Fin (pop_mean xs)) (fdiv (Fin (pop_cov xs ys)) (Fin (pop_var xs)))))
             gx gy)"
    by (simp only: a(3) t sx sy bc_gmap_gmap [OF c] s i)
qed

lemma mean_time_real:
  assumes "ts \<noteq> []" "gall (\<lambda>s. length s = length ts) g"
  shows "mean_time (real_array ts g) = gmap (\<lambda>xs. Fin (pop_mean xs)) g"
proof -
  have "gmap (\<lambda>xs. nanmean (map Fin xs)) g = gmap (\<lambda>xs. Fin (pop_mean xs)) g"
    using assms(2)
  proof (rule gmap_cong_gall)
    fix a :: "real list"
    assume "length a = length ts"
    with assms(1) have "a \<noteq> []" by auto
    then show "nanmean (map Fin a) = Fin (pop_mean a)" by (rule nanmean_Fin)
  qed
  then show ?thesis by (simp add: mean_time_def real_array_def gmap_gmap)
qed

section \<open>The combined regression\<close>

lemma fadd_NaN_right [simp]: "fadd u NaN = NaN" by (cases u) auto

lemma fmul_NaN_right [simp]: "fmul u NaN = NaN" by (cases u) auto

lemma fdiv_NaN_right [simp]: "fdiv u NaN = NaN" by (cases u) auto

lemma tstats_eq:
  "bc fdiv (gmap (\<lambda>c. fmul c (fsqrt (Fin (real_of_int (int n - 2))))) r)
           (gmap fsqrt (gmap (\<lambda>c. fsub (Fin 1) (fpow2 c)) r))
     = gmap (tstat n) r"
  by (simp only: gmap_gmap bc_gmap_gmap_same tstat_def [abs_def] fpow2_def)

lemma linregress_ND_unfold:
  "linregress_ND tcdf x0 y0 lagx lagy =
     (let n = n_aligned x0 y0 lagx lagy;
          r = cor x0 y0 lagx lagy;
          tstats = gmap (tstat n) r
      in case DataArray_of (nd_map (\<lambda>p. fmul p (Fin 2))
                (nd_map (\<lambda>t. t_sf tcdf t (int n - 2)) (values_of (gmap fabs tstats))))
              (glabels r) of
           Inl e \<Rightarrow> Inl e
         | Inr pval \<Rightarrow> Inr (cov x0 y0 lagx lagy, r, fst (reg x0 y0 lagx lagy),
                             snd (reg x0 y0 lagx lagy), pval,
                             bc fdiv (fst (reg x0 y0 lagx lagy)) tstats))"
proof -
  obtain x y where a: "align (lagged x0 lagx) (lagged y0 lagy) = (x, y)"
    by (cases "align (lagged x0 lagx) (lagged y0 lagy)")
  show ?thesis
    unfolding linregress_ND_def cov_def cor_def reg_def n_aligned_def Let_def a prod.case
      fst_conv snd_conv tstats_eq ..
qed

lemma DataArray_of_values:
  "wf_cells g \<Longrightarrow>
   DataArray_of (nd_map f (nd_map h (values_of (gmap k g)))) (glabels g)
     = Inr (gmap (\<lambda>v. f (h (k v))) g)"
  by (cases g) auto

lemma DataArray_of_Inr:
  "DataArray_of (nd_map f (nd_map h (values_of (gmap k g)))) (glabels g) = Inr p \<Longrightarrow>
   glabels p = glabels g \<and> gvalues p = map (\<lambda>v. f (h (k v))) (gvalues g)"
  by (cases g) (auto split: if_splits)

lemma stats_labels:
  assumes "align (lagged x0 lagx) (lagged y0 lagy) = (x, y)"
  shows "glabels (cov x0 y0 lagx lagy) = lab_join (glabels (series x)) (glabels (series y))"
    and "glabels (cor x0 y0 lagx lagy) = lab_join (glabels (series x)) (glabels (series y))"
    and "glabels (fst (reg x0 y0 lagx lagy)) = lab_join (glabels (series x)) (glabels (series y))"
    and "glabels (snd (reg x0 y0 lagx lagy)) = lab_join (glabels (series x)) (glabels (series y))"
  by (simp_all add: stats_cells [OF assms] glabels_bc)

lemma stats_same_labels:
  "glabels (cov x0 y0 lagx lagy) = glabels (cor x0 y0 lagx lagy)"
  "glabels (fst (reg x0 y0 lagx lagy)) = glabels (cor x0 y0 lagx lagy)"
  "glabels (snd (reg x0 y0 lagx lagy)) = glabels (cor x0 y0 lagx lagy)"
proof -
  obtain x y where a: "align (lagged x0 lagx) (lagged y0 lagy) = (x, y)"
    by (cases "align (lagged x0 lagx) (lagged y0 lagy)")
  show "glabels (cov x0 y0 lagx lagy) = glabels (cor x0 y0 lagx lagy)"
    "glabels (fst (reg x0 y0 lagx lagy)) = glabels (cor x0 y0 lagx lagy)"
    "glabels (snd (reg x0 y0 lagx lagy)) = glabels (cor x0 y0 lagx lagy)"
    by (simp_all only: stats_labels [OF a])
qed

lemma wf_cells_cor:
  assumes "wf_cells (series x0)" "wf_cells (series y0)"
  shows "wf_cells (cor x0 y0 lagx lagy)"
proof -
  obtain x y where a: "align (lagged x0 lagx) (lagged y0 lagy) = (x, y)"
    by (cases "align (lagged x0 lagx) (lagged y0 lagy)")
  have "wf_cells (series x) \<and> wf_cells (series y)"
    using align_props(3) [OF a] assms by simp
  then show ?thesis
    by (simp add: stats_cells(2) [OF a] wf_cells_bc)
qed

lemma linregress_ND_returns:
  assumes "wf_cells (series x0)" "wf_cells (series y0)"
  shows "linregress_ND tcdf x0 y0 lagx lagy =
           Inr (cov x0 y0 lagx lagy, cor x0 y0 lagx lagy,
                fst (reg x0 y0 lagx lagy), snd (reg x0 y0 lagx lagy),
                gmap (\<lambda>c. pvalue tcdf (n_aligned x0 y0 lagx lagy)
                             (tstat (n_aligned x0 y0 lagx lagy) c)) (cor x0 y0 lagx lagy),
                bc fdiv (fst (reg x0 y0 lagx lagy))
                   (gmap (tstat (n_aligned x0 y0 lagx lagy)) (cor x0 y0 lagx lagy)))"
  using wf_cells_cor [OF assms, of lagx lagy]
  by (simp add: linregress_ND_unfold Let_def gmap_gmap DataArray_of_values pvalue_def)

lemma tstat_small: "n < 2 \<Longrightarrow> tstat n c = NaN"
  by (simp add: tstat_def)

lemma pvalue_small: "n \<le> 2 \<Longrightarrow> pvalue tcdf n t = NaN"
  by (simp add: pvalue_def t_sf_def)

lemma pvalue_formula:
  "2 < n \<Longrightarrow> pvalue tcdf n (Fin t) = Fin (2 * (1 - tcdf (int n - 2) \<bar>t\<bar>))"
  by (simp add: pvalue_def t_sf_def)

lemma gall_bc_nan_right:
  assumes "gall is_nan t" "glabels s = glabels t"
  shows "gall is_nan (bc fdiv s t)"
proof -
  have "gall (\<lambda>a. True) s" by simp
  moreover note assms(1)
  moreover have "compat (glabels s) (glabels t)" using assms(2) by simp
  ultimately show ?thesis
    by (rule gall_bc) (simp add: is_nan_def)
qed

lemma n_aligned_real:
  "glabels gx = glabels gy \<Longrightarrow> n_aligned (real_array ts gx) (real_array ts gy) 0 0 = length ts"
  by (simp add: n_aligned_def align_real) (simp add: real_array_def)

lemma linregress_example:
  "linregress_ND (\<lambda>df t. 1 / 2 + arctan t / pi)
      (real_array [0, 1, 2] (Cells [10, 20] [[1, 2, 3], [1, 2, 3]]))
      (real_array [0, 1, 2] (Cells [10, 20] [[2, 4, 6], [3, 2, 1]])) 0 0
   = Inr (Cells [10, 20] [Fin (4 / 3), Fin (- 2 / 3)], Cells [10, 20] [Fin 1, Fin (- 1)],
          Cells [10, 20] [Fin 2, Fin (- 1)], Cells [10, 20] [Fin 0, Fin 4],
          Cells [10, 20] [Fin 0, Fin 0], Cells [10, 20] [Fin 0, Fin 0])"
proof -
  let ?gx = "Cells [10, 20] [[1, 2, 3], [1, 2, 3 :: real]]"
  let ?gy = "Cells [10, 20] [[2, 4, 6], [3, 2, 1 :: real]]"
  have "sqrt ((4 / 3)\<^sup>2) = 4 / (3::real)" by (simp only: real_sqrt_abs abs_of_pos)
  then have s: "sqrt (16 / 9) = 4 / (3::real)" by (simp add: power2_eq_square)
  have "sqrt ((2 / 3)\<^sup>2) = 2 / (3::real)" by (simp only: real_sqrt_abs abs_of_pos)
  then have s': "sqrt (4 / 9) = 2 / (3::real)" by (simp add: power2_eq_square)
  have w: "wf_cells (series (real_array [0, 1, 2] ?gx))" "wf_cells (series (real_array [0, 1, 2] ?gy))"
    by (simp_all add: real_array_def)
  have n: "n_aligned (real_array [0, 1, 2] ?gx) (real_array [0, 1, 2] ?gy) 0 0 = 3"
    by (simp add: n_aligned_real)
  have st: "cov (real_array [0, 1, 2] ?gx) (real_array [0, 1, 2] ?gy) 0 0
              = Cells [10, 20] [Fin (4 / 3), Fin (- 2 / 3)]"
    "cor (real_array [0, 1, 2] ?gx) (real_array [0, 1, 2] ?gy) 0 0
              = Cells [10, 20] [Fin 1, Fin (- 1)]"
    "reg (real_array [0, 1, 2] ?gx) (real_array [0, 1, 2] ?gy) 0 0
              = (Cells [10, 20] [Fin 2, Fin (- 1)], Cells [10, 20] [Fin 0, Fin 4])"
    by (simp_all add: stats_real pop_cov_def pop_var_def pop_std_def pop_mean_def lessThan_Suc
        power2_eq_square real_sqrt_mult [symmetric] s s' fsub_def)
  show ?thesis
    unfolding linregress_ND_returns [OF w] n st
    by (simp add: tstat_def pvalue_def t_sf_def fsub_def)
qed

section \<open>Shifting by one step\<close>

lemma filter_upt_prefix:
  assumes "m \<le> n" "\<And>i. i < m \<Longrightarrow> P i" "\<And>i. m \<le> i \<Longrightarrow> i < n \<Longrightarrow> \<not> P i"
  shows "filter P [0..<n] = [0..<m]"
proof -
  have "[0..<n] = [0..<m] @ [m..<n]"
    using assms(1) by (metis le_add_diff_inverse upt_add_eq_append zero_le)
  moreover have "filter P [0..<m] = [0..<m]" using assms(2) by (simp add: filter_id_conv)
  moreover have "filter P [m..<n] = []" using assms(3) by (simp add: filter_empty_conv)
  ultimately show ?thesis by simp
qed

lemma gex_gmap: "gex P (gmap f g) = gex (\<lambda>a. P (f a)) g"
  by (cases g) (auto simp: list_ex_iff)

lemma gex_cong_gall:
  assumes "gall Q g" "\<And>a. Q a \<Longrightarrow> P a = P' a"
  shows "gex P g = gex P' g"
  using assms by (cases g) (auto simp: list_ex_iff list_all_iff)

lemma gex_falseI: "gall (\<lambda>a. \<not> P a) g \<Longrightarrow> \<not> gex P g"
  by (cases g) (auto simp: list_ex_iff list_all_iff)

lemma shift_back_nth:
  assumes "i < length s"
  shows "shift_list (- 1) s ! i = (if Suc i < length s then s ! Suc i else NaN)"
  using assms by (auto simp: shift_list_def nth_append)

lemma take_shift_back: "take (length s - 1) (shift_list (- 1) s) = tl s"
  by (cases s) (auto simp: shift_list_def)

lemma map_nth_upt_take: "m \<le> length s \<Longrightarrow> map (\<lambda>i. s ! i) [0..<m] = take m s"
  by (rule nth_equalityI) auto

lemma lagged_one_by_hand:
  assumes "wf_time y" "defined_after_first y"
  shows "lagged y 1 = hand_shifted y"
proof -
  let ?n = "length (time y)"
  let ?P = "\<lambda>i. gex (\<lambda>s. s ! i \<noteq> NaN) (gmap (shift_list (- 1)) (series y))"
  have len: "gall (\<lambda>s. length s = ?n) (series y)"
    using assms(1) by (simp add: wf_time_def)
  have P: "?P i = (Suc i < ?n \<and> gex (\<lambda>s. s ! Suc i \<noteq> NaN) (series y))" if "i < ?n" for i
  proof -
    have "?P i = gex (\<lambda>s. (if Suc i < ?n then s ! Suc i else NaN) \<noteq> NaN) (series y)"
      unfolding gex_gmap using len
      by (rule gex_cong_gall) (use that in \<open>simp add: shift_back_nth\<close>)
    also have "\<dots> = (Suc i < ?n \<and> gex (\<lambda>s. s ! Suc i \<noteq> NaN) (series y))"
    proof (cases "Suc i < ?n")
      case True
      then show ?thesis by simp
    next
      case False
      then show ?thesis using gex_falseI [of "\<lambda>s. False" "series y"] by simp
    qed
    finally show ?thesis .
  qed
  have keep: "filter ?P [0..<?n] = [0..<?n - 1]"
  proof (rule filter_upt_prefix)
    show "?n - 1 \<le> ?n" by simp
    show "?P i" if "i < ?n - 1" for i
    proof -
      from that have "Suc i \<in> set [1..<?n]" by auto
      with assms(2) have "gex (\<lambda>s. s ! Suc i \<noteq> NaN) (series y)"
        unfolding defined_after_first_def list_all_iff by blast
      with that show ?thesis by (simp add: P)
    qed
    show "\<not> ?P i" if "?n - 1 \<le> i" "i < ?n" for i
    proof -
      from that have "\<not> Suc i < ?n" by arith
      with that(2) show ?thesis by (simp add: P)
    qed
  qed
  have t: "map (\<lambda>i. time y ! i) [0..<?n - 1] = butlast (time y)"
    by (simp add: map_nth_upt_take butlast_conv_take)
  have "gmap (\<lambda>s. map (\<lambda>i. shift_list (- 1) s ! i) [0..<?n - 1]) (series y) = gmap tl (series y)"
    using len
  proof (rule gmap_cong_gall)
    fix s :: "fl list"
    assume l: "length s = ?n"
    then have "map (\<lambda>i. shift_list (- 1) s ! i) [0..<?n - 1] = take (?n - 1) (shift_list (- 1) s)"
      by (simp add: map_nth_upt_take)
    also have "\<dots> = tl s" using l take_shift_back [of s] by simp
    finally show "map (\<lambda>i. shift_list (- 1) s ! i) [0..<?n - 1] = tl s" .
  qed
  with t keep show ?thesis
    by (simp add: lagged_def dropna_time_all_def shift_time_def Let_def hand_shifted_def
        gmap_gmap)
qed

lemma cov_lagged: "cov x y lagx lagy = cov (lagged x lagx) (lagged y lagy) 0 0"
  by (simp add: cov_def lagged_def)

lemma cov_direct_example:
  "cov (real_array [0, 1, 2] (Scalar [1, 2, 3])) \<lparr>time = [0, 1], series = Scalar [Fin 1, Fin 4]\<rparr> 0 0
     = Scalar (Fin (3 / 4))"
  by (simp add: cov_def lagged_def align_def inner_join_def reindex_def real_array_def Let_def
      mean_time_def std_time_def sum_axis0_def da_da_def da_stat_def nanmean_def nansum_def
      notnull_def fsum_def fsub_def)

section \<open>Degenerate inputs\<close>

lemma empty_cells:
  "cov1 0 [] [] = NaN" "cor1 0 [] [] = NaN" "slope1 0 [] [] = NaN" "icpt1 0 [] [] = NaN"
  by (simp_all add: cov1_def cor1_def slope1_def icpt1_def nansum_def nanmean_def notnull_def
      fsum_def fsub_def)

lemma no_overlap_cells:
  assumes "wf_cells (series x0)" "wf_cells (series y0)" "wf_time x0" "wf_time y0"
    and "n_aligned x0 y0 lagx lagy = 0"
    and "f [] [] = NaN"
    and "align (lagged x0 lagx) (lagged y0 lagy) = (x, y)"
  shows "gall is_nan (bc f (series x) (series y))"
proof -
  note a = assms(7)
  have t: "time x = []" "time y = []"
    using assms(5) a align_props(1) [OF a] by (simp_all add: n_aligned_def)
  have "wf_time x" "wf_time y"
    using align_props(4,5) [OF a] assms(1-4) by (simp_all add: wf_time_lagged)
  then have "gall (\<lambda>s. s = []) (series x)" "gall (\<lambda>s. s = []) (series y)"
    by (simp_all add: wf_time_def t)
  then show ?thesis
    using align_props(2) [OF a] by (rule gall_bc) (simp add: assms(6) is_nan_def)
qed

lemma no_overlap_stats:
  assumes "wf_cells (series x0)" "wf_cells (series y0)" "wf_time x0" "wf_time y0"
    and "n_aligned x0 y0 lagx lagy = 0"
  shows "gall is_nan (cov x0 y0 lagx lagy)" "gall is_nan (cor x0 y0 lagx lagy)"
    "gall is_nan (fst (reg x0 y0 lagx lagy))" "gall is_nan (snd (reg x0 y0 lagx lagy))"
proof -
  obtain x y where a: "align (lagged x0 lagx) (lagged y0 lagy) = (x, y)"
    by (cases "align (lagged x0 lagx) (lagged y0 lagy)")
  from assms(5) a have n: "length (time x) = 0" by (simp add: n_aligned_def)
  note c = no_overlap_cells [OF assms _ a]
  show "gall is_nan (cov x0 y0 lagx lagy)"
    using c [of "cov1 0"] by (simp add: stats_cells(1) [OF a] n empty_cells)
  show "gall is_nan (cor x0 y0 lagx lagy)"
    using c [of "cor1 0"] by (simp add: stats_cells(2) [OF a] n empty_cells)
  show "gall is_nan (fst (reg x0 y0 lagx lagy))"
    using c [of "slope1 0"] by (simp add: stats_cells(3) [OF a] n empty_cells)
  show "gall is_nan (snd (reg x0 y0 lagx lagy))"
    using c [of "icpt1 0"] by (simp add: stats_cells(3) [OF a] n empty_cells)
qed

lemma pop_var_zero_const:
  assumes "xs \<noteq> []" "pop_var xs = 0"
  shows "\<forall>x\<in>set xs. x = pop_mean xs"
proof -
  from assms have "(\<Sum>i<length xs. (xs ! i - pop_mean xs)\<^sup>2) = 0"
    by (simp add: pop_var_def)
  then have "\<forall>i\<in>{..<length xs}. (xs ! i - pop_mean xs)\<^sup>2 = 0"
    by (subst (asm) sum_nonneg_eq_0_iff) auto
  then show ?thesis by (auto simp: in_set_conv_nth)
qed

lemma fmul_zero_left: "fmul (Fin 0) w = Fin 0 \<or> fmul (Fin 0) w = NaN"
  by (cases w) auto

lemma fmul_zero_right: "fmul w (Fin 0) = Fin 0 \<or> fmul w (Fin 0) = NaN"
  by (cases w) auto

lemma nansum_zeros: "\<forall>v\<in>set vs. v = Fin 0 \<or> v = NaN \<Longrightarrow> nansum vs = Fin 0"
  by (induction vs) (auto simp: nansum_def notnull_def fsum_def)

lemma dev_const:
  "\<forall>x\<in>set xs. x = m \<Longrightarrow> map (\<lambda>u. fsub u (Fin m)) (map Fin xs) = map (\<lambda>x. Fin 0) xs"
  by (simp add: fsub_def)

lemma const_cells:
  assumes "xs \<noteq> []" "pop_var xs = 0" "n \<noteq> 0"
  shows "cov1 n (map Fin xs) v = Fin 0" "cov1 n v (map Fin xs) = Fin 0"
    and "is_nan (cor1 n (map Fin xs) v)" "is_nan (cor1 n v (map Fin xs))"
    and "is_nan (slope1 n (map Fin xs) v)" "is_nan (icpt1 n (map Fin xs) v)"
proof -
  note d = dev_const [OF pop_var_zero_const [OF assms(1,2)]]
  have sd: "nanstd (map Fin xs) = Fin 0"
    using assms(1,2) by (simp add: nanstd_Fin pop_std_def)
  have z1: "nansum (map2 fmul (map (\<lambda>x. Fin 0) xs) w) = Fin 0" for w
    by (rule nansum_zeros) (use fmul_zero_left in \<open>fastforce simp: set_zip\<close>)
  show c1: "cov1 n (map Fin xs) v = Fin 0"
    unfolding cov1_def nanmean_Fin [OF assms(1)] d z1 using assms(3) by simp
  have z2: "nansum (map2 fmul w (map (\<lambda>x. Fin 0) xs)) = Fin 0" for w
    by (rule nansum_zeros) (use fmul_zero_right in \<open>fastforce simp: set_zip\<close>)
  show c2: "cov1 n v (map Fin xs) = Fin 0"
    unfolding cov1_def nanmean_Fin [OF assms(1)] d z2 using assms(3) by simp
  show "is_nan (cor1 n (map Fin xs) v)"
    using fmul_zero_left [of "nanstd v"] by (auto simp: cor1_def c1 sd is_nan_def)
  show "is_nan (cor1 n v (map Fin xs))"
    using fmul_zero_right [of "nanstd v"] by (auto simp: cor1_def c2 sd is_nan_def)
  show s: "is_nan (slope1 n (map Fin xs) v)"
    by (simp add: slope1_def c1 sd fpow2_def is_nan_def)
  then show "is_nan (icpt1 n (map Fin xs) v)"
    by (simp add: icpt1_def fsub_def is_nan_def)
qed

lemma bc_gmap_left:
  "compat (glabels g) (glabels h) \<Longrightarrow> bc f (gmap p g) h = bc (\<lambda>a b. f (p a) b) g h"
  using bc_gmap_gmap [of g h f p "\<lambda>b. b"] by simp

lemma bc_gmap_right:
  "compat (glabels g) (glabels h) \<Longrightarrow> bc f g (gmap q h) = bc (\<lambda>a b. f a (q b)) g h"
  using bc_gmap_gmap [of g h f "\<lambda>a. a" q] by simp

lemma zero_variance_stats:
  assumes "ts \<noteq> []" "gall (\<lambda>s. length s = length ts) gx" "gall (\<lambda>s. pop_var s = 0) gx"
    and "time y = ts" "glabels (series y) = glabels gx"
  shows "gall (\<lambda>v. v = Fin 0) (cov (real_array ts gx) y 0 0)"
    and "gall is_nan (cor (real_array ts gx) y 0 0)"
    and "gall is_nan (fst (reg (real_array ts gx) y 0 0))"
    and "gall is_nan (snd (reg (real_array ts gx) y 0 0))"
    and "gall (\<lambda>v. v = Fin 0) (cov y (real_array ts gx) 0 0)"
    and "gall is_nan (cor y (real_array ts gx) 0 0)"
proof -
  let ?x = "real_array ts gx"
  have a: "align (lagged ?x 0) (lagged y 0) = (?x, y)"
    "align (lagged y 0) (lagged ?x 0) = (y, ?x)"
    using assms(4,5) by (simp_all add: lagged_def align_same real_array_def)
  have c: "compat (glabels gx) (glabels (series y))" "compat (glabels (series y)) (glabels gx)"
    using assms(5) by simp_all
  have n: "length (time ?x) = length ts" "length (time y) = length ts" "length ts \<noteq> 0"
    and sx: "series ?x = gmap (map Fin) gx"
    using assms(1,4) by (simp_all add: real_array_def)
  have P: "gall (\<lambda>s. s \<noteq> [] \<and> pop_var s = 0) gx"
    using gall_conj [OF assms(2,3)] by (rule gall_mono) (use assms(1) in auto)
  have T: "gall (\<lambda>s. True) (series y)" by simp
  show "gall (\<lambda>v. v = Fin 0) (cov ?x y 0 0)"
    unfolding stats_cells(1) [OF a(1)] n sx bc_gmap_left [OF c(1)]
    using P T c(1) by (rule gall_bc) (use assms(1) in \<open>simp add: const_cells\<close>)
  show "gall is_nan (cor ?x y 0 0)"
    unfolding stats_cells(2) [OF a(1)] n sx bc_gmap_left [OF c(1)]
    using P T c(1) by (rule gall_bc) (use assms(1) in \<open>simp add: const_cells\<close>)
  show "gall is_nan (fst (reg ?x y 0 0))"
    unfolding stats_cells(3) [OF a(1)] fst_conv n sx bc_gmap_left [OF c(1)]
    using P T c(1) by (rule gall_bc) (use assms(1) in \<open>simp add: const_cells\<close>)
  show "gall is_nan (snd (reg ?x y 0 0))"
    unfolding stats_cells(3) [OF a(1)] snd_conv n sx bc_gmap_left [OF c(1)]
    using P T c(1) by (rule gall_bc) (use assms(1) in \<open>simp add: const_cells\<close>)
  show "gall (\<lambda>v. v = Fin 0) (cov y ?x 0 0)"
    unfolding stats_cells(1) [OF a(2)] n sx bc_gmap_right [OF c(2)]
    using T P c(2) by (rule gall_bc) (use assms(1) in \<open>simp add: const_cells\<close>)
  show "gall is_nan (cor y ?x 0 0)"
    unfolding stats_cells(2) [OF a(2)] n sx bc_gmap_right [OF c(2)]
    using T P c(2) by (rule gall_bc) (use assms(1) in \<open>simp add: const_cells\<close>)
qed

lemma tstat_NaN [simp]: "tstat n NaN = NaN"
  by (simp add: tstat_def)

lemma pvalue_NaN [simp]: "pvalue tcdf n NaN = NaN"
  by (simp add: pvalue_def t_sf_def)

lemma no_overlap_example:
  "n_aligned (real_array [0, 1] (Scalar [1, 2])) (real_array [0, 1] (Scalar [3, 4])) 0 5 = 0"
  by (simp add: n_aligned_def lagged_def shift_time_def shift_list_def dropna_time_all_def
      align_def inner_join_def real_array_def Let_def)

section \<open>Detrending on examples\<close>

lemmas eval_defs = cov_def cor_def reg_def lagged_def align_def inner_join_def reindex_def
  real_array_def Let_def mean_time_def std_time_def sum_axis0_def da_da_def da_stat_def
  stat_da_def nanmean_def nansum_def nanstd_def nanvar_def notnull_def fsum_def fsub_def fpow2_def
  rolling_mean_def rolling_mean_list_def detrend_ND_xr_def arange_def mean_all_def
  dropna_time_all_def

lemma arange_5: "arange 5 = [Fin 0, Fin 1, Fin 2, Fin 3, Fin 4]"
proof -
  have "[0..<5] = [0, 1, 2, 3, 4 :: nat]" by code_simp
  then show ?thesis by (simp add: arange_def)
qed

lemma rolling_example:
  "rolling_mean (real_array [0, 1, 2, 3, 4] (Scalar [0, 1, 2, 3, 4])) 3
     = Inr \<lparr>time = [0, 1, 2, 3, 4], series = Scalar [NaN, Fin 1, Fin 2, Fin 3, NaN]\<rparr>"
  by (simp add: eval_defs)

lemma reg_example_full:
  "reg \<lparr>time = [0, 1, 2, 3, 4], series = Scalar (arange 5)\<rparr>
       \<lparr>time = [0, 1, 2, 3, 4], series = Scalar [NaN, Fin 1, Fin 2, Fin 3, NaN]\<rparr> 0 0
     = (Scalar (Fin (1 / 5)), Scalar (Fin (8 / 5)))"
  unfolding arange_5 by (simp add: eval_defs)

lemma reg_example_restricted:
  "reg \<lparr>time = [0, 1, 2, 3, 4], series = Scalar (arange 5)\<rparr>
       (dropna_time_all
          \<lparr>time = [0, 1, 2, 3, 4], series = Scalar [NaN, Fin 1, Fin 2, Fin 3, NaN]\<rparr>) 0 0
     = (Scalar (Fin 1), Scalar (Fin 0))"
  unfolding arange_5 by (simp add: eval_defs)

lemma detrend_example:
  "detrend_ND_xr (real_array [0, 1, 2, 3, 4] (Scalar [0, 1, 2, 3, 4])) 3
     = Inr \<lparr>time = [0, 1, 2, 3, 4],
            series = Scalar [Fin (2 / 5), Fin (6 / 5), Fin 2, Fin (14 / 5), Fin (18 / 5)]\<rparr>"
  by (simp add: eval_defs)

lemma detrend_window_one_example:
  "detrend_ND_xr (real_array [0, 1, 2] (Scalar [1, 3, 5])) 1
     = Inr \<lparr>time = [0, 1, 2], series = Scalar [Fin 3, Fin 3, Fin 3]\<rparr>"
  by (simp add: eval_defs)

text \<open>With window 1 the moving average of a finite series is the series itself, and
  on a linear trend over at least two positions the regression recovers the line: the
  detrended array is the constant mean.\<close>

lemma rolling_one_Fin: "rolling_mean_list (Suc 0) (map Fin rs) = map Fin rs"
proof (rule nth_equalityI)
  show "length (rolling_mean_list (Suc 0) (map Fin rs)) = length (map Fin rs)"
    by (simp add: rolling_mean_list_def)
next
  fix i
  assume "i < length (rolling_mean_list (Suc 0) (map Fin rs))"
  then have i: "i < length rs" by (simp add: rolling_mean_list_def)
  then have "take (Suc 0) (drop i (map Fin rs)) = [Fin (rs ! i)]"
    by (simp add: take_Suc drop_map [symmetric] hd_drop_conv_nth)
  with i show "rolling_mean_list (Suc 0) (map Fin rs) ! i = map Fin rs ! i"
    by (simp add: rolling_mean_list_def fsum_def)
qed

lemma rolling_one_real:
  assumes "ts \<noteq> []"
  shows "rolling_mean (real_array ts g) 1 = Inr (real_array ts g)"
  using assms by (cases g) (simp_all add: rolling_mean_def real_array_def rolling_one_Fin)

lemma arange_real: "arange n = map Fin (map real [0..<n])"
  by (simp add: arange_def)

lemma pop_mean_affine:
  assumes "xs \<noteq> []"
  shows "pop_mean (map (\<lambda>x. a + b * x) xs) = a + b * pop_mean xs"
proof -
  have "sum_list (map (\<lambda>x. a + b * x) xs) = a * real (length xs) + b * sum_list xs"
    by (induction xs) (simp_all add: algebra_simps)
  with assms show ?thesis by (simp add: pop_mean_def add_divide_distrib)
qed

lemma pop_cov_affine:
  assumes "xs \<noteq> []"
  shows "pop_cov xs (map (\<lambda>x. a + b * x) xs) = b * pop_var xs"
proof -
  let ?m = "pop_mean xs"
  have tm: "(x - ?m) * ((a + b * x) - (a + b * ?m)) = b * (x - ?m)\<^sup>2" for x
    by (simp add: power2_eq_square right_diff_distrib)
  have "(\<Sum>i<length xs. (xs ! i - ?m) * ((a + b * xs ! i) - (a + b * ?m)))
      = b * (\<Sum>i<length xs. (xs ! i - ?m)\<^sup>2)"
    by (simp only: tm sum_distrib_left)
  then show ?thesis
    using assms by (simp add: pop_cov_def pop_var_def pop_mean_affine)
qed


lemma pop_var_index_pos:
  assumes "2 \<le> n"
  shows "pop_var (map real [0..<n]) \<noteq> 0"
proof
  assume z: "pop_var (map real [0..<n]) = 0"
  from assms have ne: "map real [0..<n] \<noteq> []" by auto
  from pop_var_zero_const [OF ne z]
  have c: "real i = pop_mean (map real [0..<n])" if "i < n" for i
    using that by auto
  from assms have "0 < n" "1 < n" by auto
  then have "real 0 = real 1" using c [of 0] c [of 1] by simp
  then show False by simp
qed

lemma detrend_window_one_linear:
  assumes "2 \<le> length ts"
  shows "detrend_ND_xr
           (real_array ts (Scalar (map (\<lambda>x. a + b * x) (map real [0..<length ts])))) 1
       = Inr \<lparr>time = ts,
              series = Scalar (replicate (length ts)
                (Fin (pop_mean (map (\<lambda>x. a + b * x) (map real [0..<length ts])))))\<rparr>"
proof -
  let ?xs = "map real [0..<length ts]"
  let ?ys = "map (\<lambda>x. a + b * x) ?xs"
  let ?x = "real_array ts (Scalar ?xs)"
  let ?y = "real_array ts (Scalar ?ys)"
  from assms have ne: "ts \<noteq> []" "?xs \<noteq> []" by auto
  have v: "pop_var ?xs \<noteq> 0" using assms by (rule pop_var_index_pos)
  have x: "\<lparr>time = time ?y, series = Scalar (arange (length (time ?y)))\<rparr> = ?x"
    by (simp add: real_array_def arange_def)
  have "reg ?x ?y 0 0
      = (Scalar (fdiv (Fin (pop_cov ?xs ?ys)) (Fin (pop_var ?xs))),
         Scalar (fsub (Fin (pop_mean ?ys))
                   (fmul (Fin (pop_mean ?xs)) (fdiv (Fin (pop_cov ?xs ?ys)) (Fin (pop_var ?xs))))))"
    using stats_real(3) [of ts "Scalar ?xs" "Scalar ?ys"] ne(1) by simp
  also have "\<dots> = (Scalar (Fin b), Scalar (Fin a))"
    unfolding pop_cov_affine [OF ne(2)] pop_mean_affine [OF ne(2)]
    using v by (simp add: fsub_def)
  finally have r: "reg ?x ?y 0 0 = (Scalar (Fin b), Scalar (Fin a))" .
  have m: "mean_all ?y = Scalar (Fin (pop_mean ?ys))"
    using ne(2) nanmean_Fin [of ?ys] by (simp add: mean_all_def real_array_def)
  have d: "da_stat fadd (da_da fsub ?y (da_stat fadd (stat_da fmul (Scalar (Fin b)) ?x)
              (Scalar (Fin a)))) (Scalar (Fin (pop_mean ?ys)))
        = \<lparr>time = ts, series = Scalar (replicate (length ts) (Fin (pop_mean ?ys)))\<rparr>"
    by (simp add: da_stat_def da_da_def stat_da_def real_array_def fsub_def comp_def
        zip_map1 zip_map2 zip_same_conv_map map_replicate_const)
  show ?thesis
    unfolding detrend_ND_xr_def rolling_one_real [OF ne(1)] sum.case x r Let_def prod.case m d ..
qed

section \<open>Regression of aligned inputs\<close>

lemma reg_aligned_general:
  assumes "time x = time y" "glabels (series x) = glabels (series y)"
  shows "reg x y 0 0
       = (bc fdiv (cov x y 0 0) (gmap fpow2 (std_time x)),
          bc fsub (mean_time y)
            (bc fmul (mean_time x) (bc fdiv (cov x y 0 0) (gmap fpow2 (std_time x)))))"
  using assms by (simp add: stats_of_aligned(3) lagged_def align_same)


section \<open>Exceptions\<close>

lemma distinct_dropna: "distinct (time a) \<Longrightarrow> distinct (time (dropna_time_all a))"
  by (auto simp: dropna_time_all_def Let_def distinct_map inj_on_def nth_eq_iff_index_eq)

lemma unique_labels_lagged: "unique_labels a \<Longrightarrow> unique_labels (lagged a lag)"
  by (auto simp: unique_labels_def lagged_def distinct_dropna shift_time_def glabels_gmap)
    (simp add: dropna_time_all_def Let_def shift_time_def glabels_gmap)

lemma galign_raises_unique:
  assumes "case glabels g of None \<Rightarrow> True | Some ls \<Rightarrow> distinct ls"
    and "case glabels h of None \<Rightarrow> True | Some ls \<Rightarrow> distinct ls"
  shows "\<not> galign_raises g h"
  using assms by (cases g; cases h) (simp_all add: index_conflict_def)

lemma unique_labels_no_raise:
  assumes "unique_labels x" "unique_labels y"
  shows "\<not> raises x y lagx lagy"
proof -
  have "unique_labels (lagged x lagx)" "unique_labels (lagged y lagy)"
    using assms by (simp_all add: unique_labels_lagged)
  then show ?thesis
    by (simp add: raises_def align_raises_def index_conflict_def unique_labels_def
        galign_raises_unique)
qed

lemma galign_raises_same: "glabels g = glabels h \<Longrightarrow> \<not> galign_raises g h"
  by (cases g; cases h) (simp_all add: index_conflict_def)

lemma aligned_no_raise:
  assumes "time x = time y" "glabels (series x) = glabels (series y)"
  shows "\<not> raises x y 0 0"
  using assms
  by (simp add: raises_def lagged_def align_raises_def index_conflict_def galign_raises_same)

section \<open>Undefined values\<close>

lemma fdiv_by_zero: "is_undefined (fdiv c (Fin 0))"
  by (cases c) (simp_all add: is_undefined_def)

lemma fdiv_zero_or_NaN: "w = Fin 0 \<or> w = NaN \<Longrightarrow> is_undefined (fdiv c w)"
  using fdiv_by_zero [of c] by (auto simp: is_undefined_def)

lemma tstat_undefined: "is_undefined c \<Longrightarrow> tstat n c = NaN"
  by (cases c) (simp_all add: is_undefined_def tstat_def fsub_def)

lemma linregress_undefined:
  assumes "wf_cells (series x)" "wf_cells (series y)" "gall is_undefined (cor x y lagx lagy)"
  shows "\<exists>p e. linregress_ND tcdf x y lagx lagy =
             Inr (cov x y lagx lagy, cor x y lagx lagy, fst (reg x y lagx lagy),
                  snd (reg x y lagx lagy), p, e)
           \<and> gall is_nan p \<and> gall is_nan e"
proof -
  let ?n = "n_aligned x y lagx lagy"
  have t: "gall is_nan (gmap (tstat ?n) (cor x y lagx lagy))"
    unfolding gall_gmap using assms(3) by (rule gall_mono) (simp add: is_nan_def tstat_undefined)
  have "gall is_nan (gmap (\<lambda>c. pvalue tcdf ?n (tstat ?n c)) (cor x y lagx lagy))"
    unfolding gall_gmap using assms(3) by (rule gall_mono) (simp add: is_nan_def tstat_undefined)
  moreover have "gall is_nan (bc fdiv (fst (reg x y lagx lagy)) (gmap (tstat ?n) (cor x y lagx lagy)))"
    using t by (rule gall_bc_nan_right) (simp add: stats_same_labels)
  ultimately show ?thesis
    using linregress_ND_returns [OF assms(1,2), of tcdf lagx lagy] by blast
qed

section \<open>Two time positions or fewer\<close>

lemma tstat_two: "tstat 2 c = NaN \<or> tstat 2 c = Fin 0"
proof -
  have d: "fdiv (Fin 0) d = NaN \<or> fdiv (Fin 0) d = Fin 0" for d
    by (cases d) simp_all
  from fmul_zero_right [of c] show ?thesis
  proof
    assume "fmul c (Fin 0) = Fin 0"
    then show ?thesis
      using d [of "fsqrt (fsub (Fin 1) (fmul c c))"] by (simp add: tstat_def)
  next
    assume "fmul c (Fin 0) = NaN"
    then show ?thesis by (simp add: tstat_def)
  qed
qed

lemma few_positions:
  fixes r s :: "fl grid"
  assumes "glabels s = glabels r"
  shows "n < 2 \<Longrightarrow> gall is_nan (gmap (tstat n) r)"
    and "n < 2 \<Longrightarrow> gall is_nan (bc fdiv s (gmap (tstat n) r))"
    and "n \<le> 2 \<Longrightarrow> gall is_nan (gmap (pvalue tcdf n) (gmap (tstat n) r))"
    and "n \<le> 2 \<Longrightarrow> gall (\<lambda>v. v = NaN \<or> v = Fin 0) (gmap (tstat n) r)"
    and "n \<le> 2 \<Longrightarrow> gall is_undefined (bc fdiv s (gmap (tstat n) r))"
proof -
  show t: "gall is_nan (gmap (tstat n) r)" if "n < 2"
    using that by (simp add: gall_gmap tstat_small is_nan_def)
  show "gall is_nan (bc fdiv s (gmap (tstat n) r))" if "n < 2"
    using t [OF that] by (rule gall_bc_nan_right) (simp add: assms glabels_gmap)
  show "gall is_nan (gmap (pvalue tcdf n) (gmap (tstat n) r))" if "n \<le> 2"
    using that by (simp add: gall_gmap pvalue_small is_nan_def)
  show z: "gall (\<lambda>v. v = NaN \<or> v = Fin 0) (gmap (tstat n) r)" if "n \<le> 2"
  proof (cases "n < 2")
    case True
    then show ?thesis by (simp add: gall_gmap tstat_small)
  next
    case False
    with that have "n = 2" by simp
    then show ?thesis using tstat_two by (simp add: gall_gmap)
  qed
  show "gall is_undefined (bc fdiv s (gmap (tstat n) r))" if "n \<le> 2"
  proof -
    have "gall (\<lambda>a. True) s" by simp
    moreover note z [OF that]
    moreover have "compat (glabels s) (glabels (gmap (tstat n) r))"
      by (simp add: assms glabels_gmap)
    ultimately show ?thesis
      by (rule gall_bc) (auto intro: fdiv_zero_or_NaN)
  qed
qed


section \<open>Constant series\<close>

lemma const_int_var:
  assumes "s \<noteq> []" "const_int s"
  shows "pop_var s = 0"
proof -
  define c where "c = real_of_int \<lfloor>hd s\<rfloor>"
  from assms(2) have e: "\<forall>v\<in>set s. v = c"
    by (simp add: const_int_def c_def list_all_iff)
  then have "s = replicate (length s) c"
    by (simp add: replicate_length_same)
  then have "sum_list s = real (length s) * c"
    by (metis sum_list_replicate)
  with assms(1) have "pop_mean s = c"
    by (simp add: pop_mean_def)
  moreover from e have "s ! i = c" if "i < length s" for i
    using that by simp
  ultimately show ?thesis
    by (simp add: pop_var_def)
qed

section \<open>Covariance\<close>

text \<open>
  Claim C1 says that \<open>cov\<close> returns the population covariance of its aligned inputs, and
  for \<open>cov x x\<close> the population variance of \<open>x\<close>. A missing value in a series breaks
  this: the means, the standard deviation and the sum of the products skip the NaN
  position, and the sum is divided by \<open>n\<close>, which counts it. For \<open>x = [1, NaN, 3]\<close> the
  covariance of \<open>x\<close> with itself is 2/3, where the variance of \<open>x\<close>, the square of its
  standard deviation, is 1. The lag branch of the same function drops such a position
  before the statistics are taken: with both lags 1 the series \<open>[9, 1, NaN, 3]\<close> is
  reduced to \<open>[1, 3]\<close>, and its covariance with itself is 1.
\<close>

theorem cov_missing_value:
  "cov \<lparr>time = [0, 1, 2], series = Scalar [Fin 1, NaN, Fin 3]\<rparr>
       \<lparr>time = [0, 1, 2], series = Scalar [Fin 1, NaN, Fin 3]\<rparr> 0 0 = Scalar (Fin (2 / 3))
   \<and> gmap fpow2 (std_time \<lparr>time = [0, 1, 2], series = Scalar [Fin 1, NaN, Fin 3]\<rparr>) = Scalar (Fin 1)
   \<and> lagged \<lparr>time = [0, 1, 2, 3], series = Scalar [Fin 9, Fin 1, NaN, Fin 3]\<rparr> 1
       = \<lparr>time = [0, 2], series = Scalar [Fin 1, Fin 3]\<rparr>
   \<and> cov \<lparr>time = [0, 1, 2, 3], series = Scalar [Fin 9, Fin 1, NaN, Fin 3]\<rparr>
         \<lparr>time = [0, 1, 2, 3], series = Scalar [Fin 9, Fin 1, NaN, Fin 3]\<rparr> 1 1 = Scalar (Fin 1)"
  by (simp add: eval_defs shift_time_def shift_list_def upt_rec)

section \<open>Correlation\<close>

text \<open>
  Claim C8 says that \<open>cor\<close> is the population covariance divided by the product of the
  population standard deviations, and 1 for \<open>cor x x\<close> when \<open>x\<close> has a variance other
  than zero. With a missing value the covariance is taken with the denominator \<open>n\<close> of
  all positions and the standard deviations with the number of values present: for
  \<open>x = [1, NaN, 3]\<close> the standard deviation is 1 and \<open>cor x x\<close> is 2/3. On the lag
  branch, where the position of the missing value is dropped, the correlation of
  \<open>[9, 1, NaN, 3]\<close> with itself is 1.
\<close>

theorem cor_missing_value:
  "std_time \<lparr>time = [0, 1, 2], series = Scalar [Fin 1, NaN, Fin 3]\<rparr> = Scalar (Fin 1)
   \<and> cor \<lparr>time = [0, 1, 2], series = Scalar [Fin 1, NaN, Fin 3]\<rparr>
         \<lparr>time = [0, 1, 2], series = Scalar [Fin 1, NaN, Fin 3]\<rparr> 0 0 = Scalar (Fin (2 / 3))
   \<and> cor \<lparr>time = [0, 1, 2, 3], series = Scalar [Fin 9, Fin 1, NaN, Fin 3]\<rparr>
         \<lparr>time = [0, 1, 2, 3], series = Scalar [Fin 9, Fin 1, NaN, Fin 3]\<rparr> 1 1 = Scalar (Fin 1)"
  by (simp add: eval_defs shift_time_def shift_list_def upt_rec)

section \<open>Regression\<close>

text \<open>
  Claim C5, amended. For every pair of inputs on the same time positions and the same
  cells, and with zero lags, \<open>reg\<close> returns the slope \<open>cov(x, y) / std(x)\<^sup>2\<close>, where
  \<open>std\<close> is the population standard deviation, and the intercept
  \<open>mean(y) - mean(x) * slope\<close>.
\<close>

theorem reg_slope_intercept:
  assumes "time x = time y"
    and "glabels (series x) = glabels (series y)"
  shows "fst (reg x y 0 0) = bc fdiv (cov x y 0 0) (gmap fpow2 (std_time x))
       \<and> snd (reg x y 0 0) = bc fsub (mean_time y) (bc fmul (mean_time x) (fst (reg x y 0 0)))"
  using reg_aligned_general [OF assms] by simp

theorem reg_slope_intercept_witness:
  "reg (real_array [0, 1, 2] (Cells [10, 20] [[1, 2, 3], [1, 1, 4]]))
       (real_array [0, 1, 2] (Cells [10, 20] [[2, 4, 7], [0, 3, 0]])) 0 0
     = (Cells [10, 20] [Fin (5 / 2), Fin (- 1 / 2)], Cells [10, 20] [Fin (- 2 / 3), Fin 2])"
proof -
  let ?x = "real_array [0, 1, 2] (Cells [10, 20] [[1, 2, 3], [1, 1, 4]])"
  let ?y = "real_array [0, 1, 2] (Cells [10, 20] [[2, 4, 7], [0, 3, 0]])"
  have a: "time ?x = time ?y" "glabels (series ?x) = glabels (series ?y)"
    by (simp_all add: real_array_def)
  have c: "cov ?x ?y 0 0 = Cells [10, 20] [Fin (5 / 3), Fin (- 1)]"
    and s: "gmap fpow2 (std_time ?x) = Cells [10, 20] [Fin (2 / 3), Fin 2]"
    and m: "mean_time ?x = Cells [10, 20] [Fin 2, Fin 2]"
      "mean_time ?y = Cells [10, 20] [Fin (13 / 3), Fin 1]"
    by (simp_all add: eval_defs)
  from reg_slope_intercept [OF a]
  have f: "fst (reg ?x ?y 0 0) = Cells [10, 20] [Fin (5 / 2), Fin (- 1 / 2)]"
    and "snd (reg ?x ?y 0 0) = bc fsub (mean_time ?y) (bc fmul (mean_time ?x) (fst (reg ?x ?y 0 0)))"
    unfolding c s by (simp_all add: inner_join_def)
  then have "snd (reg ?x ?y 0 0) = Cells [10, 20] [Fin (- 2 / 3), Fin 2]"
    unfolding f m by (simp add: inner_join_def fsub_def)
  with f show ?thesis by (simp add: prod_eq_iff)
qed

text \<open>
  Claim C5 as stated adds that \<^verbatim>\<open>mean(y) == slope*mean(x) + intercept\<close> holds for the
  returned pair. For the constant \<open>x = [1, 1]\<close> and \<open>y = [1, 2]\<close> the standard deviation
  of \<open>x\<close> is 0, slope and intercept are both NaN, and the comparison is false.
\<close>

theorem reg_mean_identity_counterexample:
  "reg (real_array [0, 1] (Scalar [1, 1])) (real_array [0, 1] (Scalar [1, 2])) 0 0
     = (Scalar NaN, Scalar NaN)
   \<and> \<not> mean_identity (real_array [0, 1] (Scalar [1, 1])) (real_array [0, 1] (Scalar [1, 2]))"
  by (simp add: mean_identity_def eval_defs)

section \<open>Combined regression with significance\<close>

text \<open>
  Claim C6. For every pair of arrays (with as many cells as cell labels) and zero lags,
  \<open>linregress_ND\<close> returns, and the covariance, correlation, slope and intercept it
  returns are those of the standalone calls \<open>cov\<close>, \<open>cor\<close> and \<open>reg\<close> on the same
  inputs.
\<close>

theorem linregress_matches_standalone:
  assumes "wf_cells (series x)" "wf_cells (series y)"
  shows "\<exists>pval stderr. linregress_ND tcdf x y 0 0 =
           Inr (cov x y 0 0, cor x y 0 0, fst (reg x y 0 0), snd (reg x y 0 0), pval, stderr)"
  using linregress_ND_returns [OF assms] by blast

theorem linregress_matches_standalone_witness:
  "\<exists>pval stderr.
     linregress_ND (\<lambda>df t. 1 / 2 + arctan t / pi)
        (real_array [0, 1, 2] (Cells [10, 20] [[1, 2, 3], [1, 1, 4]]))
        (real_array [0, 1, 2] (Cells [10, 20] [[2, 4, 7], [0, 3, 0]])) 0 0
     = Inr (cov (real_array [0, 1, 2] (Cells [10, 20] [[1, 2, 3], [1, 1, 4]]))
                (real_array [0, 1, 2] (Cells [10, 20] [[2, 4, 7], [0, 3, 0]])) 0 0,
            cor (real_array [0, 1, 2] (Cells [10, 20] [[1, 2, 3], [1, 1, 4]]))
                (real_array [0, 1, 2] (Cells [10, 20] [[2, 4, 7], [0, 3, 0]])) 0 0,
            fst (reg (real_array [0, 1, 2] (Cells [10, 20] [[1, 2, 3], [1, 1, 4]]))
                     (real_array [0, 1, 2] (Cells [10, 20] [[2, 4, 7], [0, 3, 0]])) 0 0),
            snd (reg (real_array [0, 1, 2] (Cells [10, 20] [[1, 2, 3], [1, 1, 4]]))
                     (real_array [0, 1, 2] (Cells [10, 20] [[2, 4, 7], [0, 3, 0]])) 0 0),
            pval, stderr)"
  by (rule linregress_matches_standalone) (simp_all add: real_array_def)

text \<open>
  Claim C7, amended. Whenever its inputs align without an exception, \<open>linregress_ND\<close>
  returns, next to the covariance, correlation, slope and intercept of the standalone
  functions, the p-value \<open>2 * sf(|t|)\<close> and the standard error \<open>slope / t\<close> of the
  t-statistic \<open>t = cor * sqrt(n - 2) / sqrt(1 - cor\<^sup>2)\<close> of every cell, on the cells of
  the correlation; the p-value of a finite \<open>t\<close> is \<open>2 * (1 - CDF(|t|))\<close> with \<open>n - 2\<close>
  degrees of freedom when \<open>n > 2\<close>. When \<open>n - 2 < 0\<close> the t-statistic, the p-value and
  the standard error are NaN in every cell; when \<open>n - 2 = 0\<close> the p-value is NaN, the
  t-statistic is NaN or 0 and the standard error is NaN or infinite.
\<close>

theorem linregress_significance:
  assumes "wf_cells (series x)" "wf_cells (series y)" "\<not> raises x y lagx lagy"
  shows "let n = n_aligned x y lagx lagy;
             r = cor x y lagx lagy;
             s = fst (reg x y lagx lagy);
             t = gmap (tstat n) r;
             p = gmap (pvalue tcdf n) t;
             e = bc fdiv s t
         in linregress_ND tcdf x y lagx lagy
              = Inr (cov x y lagx lagy, r, s, snd (reg x y lagx lagy), p, e)
          \<and> glabels t = glabels r \<and> glabels p = glabels r \<and> glabels e = glabels r
          \<and> (\<forall>v. pvalue tcdf n (Fin v)
                   = (if 2 < n then Fin (2 * (1 - tcdf (int n - 2) \<bar>v\<bar>)) else NaN))
          \<and> (n < 2 \<longrightarrow> gall is_nan t \<and> gall is_nan e)
          \<and> (n \<le> 2 \<longrightarrow> gall is_nan p \<and> gall (\<lambda>v. v = NaN \<or> v = Fin 0) t
                         \<and> gall is_undefined e)"
proof -
  let ?n = "n_aligned x y lagx lagy"
  let ?r = "cor x y lagx lagy"
  let ?s = "fst (reg x y lagx lagy)"
  let ?t = "gmap (tstat ?n) ?r"
  let ?p = "gmap (pvalue tcdf ?n) ?t"
  let ?e = "bc fdiv ?s ?t"
  have l: "glabels ?s = glabels ?r" by (rule stats_same_labels(2))
  have ret: "linregress_ND tcdf x y lagx lagy =
      Inr (cov x y lagx lagy, ?r, ?s, snd (reg x y lagx lagy), ?p, ?e)"
    by (simp add: linregress_ND_returns [OF assms(1,2)] gmap_gmap comp_def)
  have lab: "glabels ?t = glabels ?r" "glabels ?p = glabels ?r" "glabels ?e = glabels ?r"
    by (simp_all add: glabels_bc l)
  have pv: "pvalue tcdf ?n (Fin v) = (if 2 < ?n then Fin (2 * (1 - tcdf (int ?n - 2) \<bar>v\<bar>)) else NaN)"
    for v
    by (simp add: pvalue_formula pvalue_small)
  note f = few_positions [OF l, of ?n]
  show ?thesis
    unfolding Let_def using ret lab pv f by blast
qed

theorem linregress_significance_witness:
  "linregress_ND (\<lambda>df t. 1 / 2 + arctan t / pi)
      (real_array [0, 1, 2] (Scalar [- 1, 0, 1])) (real_array [0, 1, 2] (Scalar [0, - 1, 1])) 0 0
     = Inr (Scalar (Fin (1 / 3)), Scalar (Fin (1 / 2)), Scalar (Fin (1 / 2)), Scalar (Fin 0),
            Scalar (Fin (2 / 3)), Scalar (Fin (sqrt 3 / 2)))
   \<and> linregress_ND (\<lambda>df t. 1 / 2 + arctan t / pi)
        (real_array [0] (Cells [10, 20] [[5], [6]])) (real_array [0] (Cells [10, 20] [[7], [8]])) 0 0
     = Inr (Cells [10, 20] [Fin 0, Fin 0], Cells [10, 20] [NaN, NaN], Cells [10, 20] [NaN, NaN],
            Cells [10, 20] [NaN, NaN], Cells [10, 20] [NaN, NaN], Cells [10, 20] [NaN, NaN])"
proof -
  let ?cdf = "\<lambda>(df::int) t. 1 / 2 + arctan t / pi"
  let ?x = "real_array [0, 1, 2] (Scalar [- 1, 0, 1])"
  let ?y = "real_array [0, 1, 2] (Scalar [0, - 1, 1])"
  let ?u = "real_array [0] (Cells [10, 20] [[5], [6]])"
  let ?v = "real_array [0] (Cells [10, 20] [[7], [8]])"
  have w: "wf_cells (series ?x)" "wf_cells (series ?y)" "\<not> raises ?x ?y 0 0"
    and w': "wf_cells (series ?u)" "wf_cells (series ?v)" "\<not> raises ?u ?v 0 0"
    by (simp_all add: real_array_def raises_def lagged_def align_raises_def index_conflict_def)
  have n: "n_aligned ?x ?y 0 0 = 3" and n': "n_aligned ?u ?v 0 0 = 1"
    by (simp_all add: n_aligned_real)
  have st: "cov ?x ?y 0 0 = Scalar (Fin (1 / 3))" "cor ?x ?y 0 0 = Scalar (Fin (1 / 2))"
    "reg ?x ?y 0 0 = (Scalar (Fin (1 / 2)), Scalar (Fin 0))"
    by (simp_all add: stats_real pop_cov_def pop_var_def pop_std_def pop_mean_def lessThan_Suc
        power2_eq_square fsub_def)
  have st': "cov ?u ?v 0 0 = Cells [10, 20] [Fin 0, Fin 0]"
    "cor ?u ?v 0 0 = Cells [10, 20] [NaN, NaN]"
    "reg ?u ?v 0 0 = (Cells [10, 20] [NaN, NaN], Cells [10, 20] [NaN, NaN])"
    by (simp_all add: stats_real pop_cov_def pop_var_def pop_std_def pop_mean_def lessThan_Suc
        power2_eq_square fsub_def)
  have q: "sqrt (3 / 4) = sqrt 3 / 2"
    by (simp add: real_sqrt_divide)
  have p: "arctan (1 / sqrt 3) = pi / 6"
    by (rule arctan_unique) (simp_all add: tan_30)
  from linregress_significance [OF w, of ?cdf]
  have "linregress_ND ?cdf ?x ?y 0 0
     = Inr (Scalar (Fin (1 / 3)), Scalar (Fin (1 / 2)), Scalar (Fin (1 / 2)), Scalar (Fin 0),
            Scalar (Fin (2 / 3)), Scalar (Fin (sqrt 3 / 2)))"
    unfolding Let_def n st by (simp add: tstat_def pvalue_def t_sf_def fsub_def q p)
  moreover from linregress_significance [OF w', of ?cdf]
  have "linregress_ND ?cdf ?u ?v 0 0
     = Inr (Cells [10, 20] [Fin 0, Fin 0], Cells [10, 20] [NaN, NaN], Cells [10, 20] [NaN, NaN],
            Cells [10, 20] [NaN, NaN], Cells [10, 20] [NaN, NaN], Cells [10, 20] [NaN, NaN])"
    unfolding Let_def n' st' by (simp add: tstat_def pvalue_def t_sf_def inner_join_def)
  ultimately show ?thesis by (rule conjI)
qed

text \<open>
  Claim C7 as stated, NaN for the three statistics whenever \<open>n - 2 \<le> 0\<close>, fails on two
  time positions. There \<open>sqrt(n - 2)\<close> is 0 and the t-statistic is
  \<open>cor * 0 / sqrt(1 - cor\<^sup>2)\<close>, which is 0 for every correlation strictly between -1
  and 1; the standard error \<open>slope / 0\<close> is then infinite. The correlation of two points
  is 1 or -1 in exact arithmetic; computed in doubles it can be a neighbour of 1: for
  \<open>x = [0.1, 0.2]\<close> and \<open>y = [0.1, 0.5]\<close> it is \<open>1 - 1 / 2 ^ 52\<close>, with a slope of
  about 4.
\<close>

theorem tstat_two_positions_counterexample:
  "tstat 2 (Fin (1 - 1 / 2 ^ 52)) = Fin 0
   \<and> fdiv (Fin 4) (tstat 2 (Fin (1 - 1 / 2 ^ 52))) = PInf"
proof -
  have "(1 - 1 / 2 ^ 52) * (1 - 1 / 2 ^ 52) < (1 :: real)"
    by simp
  then have "tstat 2 (Fin (1 - 1 / 2 ^ 52)) = Fin 0"
    by (simp add: tstat_def fsub_def)
  then show ?thesis by simp
qed

text \<open>
  Claim C10. Whenever \<open>linregress_ND\<close> returns, the p-value has the cell labels of
  the returned correlation and holds, cell by cell, the doubled survival-function value
  of the t-statistic of that correlation; covariance, slope, intercept and standard
  error have the same cell labels too.
\<close>

theorem linregress_pval_labels:
  assumes "linregress_ND tcdf x y lagx lagy = Inr (c, r, s, i, p, e)"
  shows "glabels p = glabels r
       \<and> gvalues p = map (\<lambda>v. pvalue tcdf (n_aligned x y lagx lagy)
                                  (tstat (n_aligned x y lagx lagy) v)) (gvalues r)
       \<and> glabels c = glabels r \<and> glabels s = glabels r \<and> glabels i = glabels r
       \<and> glabels e = glabels r"
proof -
  let ?n = "n_aligned x y lagx lagy"
  from assms obtain q where
    q: "DataArray_of (nd_map (\<lambda>p. fmul p (Fin 2))
          (nd_map (\<lambda>t. t_sf tcdf t (int ?n - 2))
             (values_of (gmap (\<lambda>v. fabs (tstat ?n v)) (cor x y lagx lagy)))))
          (glabels (cor x y lagx lagy)) = Inr q"
    and eq: "(c, r, s, i, p, e) = (cov x y lagx lagy, cor x y lagx lagy, fst (reg x y lagx lagy),
             snd (reg x y lagx lagy), q,
             bc fdiv (fst (reg x y lagx lagy)) (gmap (tstat ?n) (cor x y lagx lagy)))"
    by (auto simp: linregress_ND_unfold Let_def gmap_gmap split: sum.splits)
  from DataArray_of_Inr [OF q]
  have "glabels q = glabels (cor x y lagx lagy)"
    and "gvalues q = map (\<lambda>v. pvalue tcdf ?n (tstat ?n v)) (gvalues (cor x y lagx lagy))"
    by (simp_all add: pvalue_def)
  with eq show ?thesis
    by (simp add: stats_same_labels glabels_bc)
qed

theorem linregress_pval_labels_witness:
  "glabels (Cells [10, 20] [Fin 0, Fin 0]) = glabels (Cells [10, 20] [Fin 1, Fin (- 1)])
   \<and> gvalues (Cells [10, 20] [Fin 0, Fin 0])
       = map (\<lambda>v. pvalue (\<lambda>df t. 1 / 2 + arctan t / pi)
                    (n_aligned (real_array [0, 1, 2] (Cells [10, 20] [[1, 2, 3], [1, 2, 3]]))
                       (real_array [0, 1, 2] (Cells [10, 20] [[2, 4, 6], [3, 2, 1]])) 0 0)
                    (tstat (n_aligned (real_array [0, 1, 2] (Cells [10, 20] [[1, 2, 3], [1, 2, 3]]))
                              (real_array [0, 1, 2] (Cells [10, 20] [[2, 4, 6], [3, 2, 1]])) 0 0) v))
           (gvalues (Cells [10, 20] [Fin 1, Fin (- 1)]))
   \<and> glabels (Cells [10, 20] [Fin (4 / 3), Fin (- 2 / 3)]) = glabels (Cells [10, 20] [Fin 1, Fin (- 1)])
   \<and> glabels (Cells [10, 20] [Fin 2, Fin (- 1)]) = glabels (Cells [10, 20] [Fin 1, Fin (- 1)])
   \<and> glabels (Cells [10, 20] [Fin 0, Fin 4]) = glabels (Cells [10, 20] [Fin 1, Fin (- 1)])
   \<and> glabels (Cells [10, 20] [Fin 0, Fin 0]) = glabels (Cells [10, 20] [Fin 1, Fin (- 1)])"
  by (rule linregress_pval_labels [OF linregress_example])

section \<open>Lags\<close>

text \<open>
  Claim C9. For every pair of inputs, \<open>cov x y\<close> with \<open>lagx = 0\<close> and \<open>lagy = 1\<close> is
  \<open>cov\<close> with zero lags of \<open>x\<close> and of \<open>y\<close> shifted one step backward with the
  positions that are entirely undefined dropped; and this pre-shifted \<open>y\<close> is the
  hand-made one (the values from the second position on, the last time label removed)
  whenever \<open>y\<close> holds a value at every position after the first.
\<close>

theorem lag_is_preshift:
  "cov x y 0 1 = cov x (dropna_time_all (shift_time y (- 1))) 0 0
   \<and> (wf_time y \<and> defined_after_first y \<longrightarrow> cov x y 0 1 = cov x (hand_shifted y) 0 0)"
proof -
  have "cov x y 0 1 = cov x (lagged y 1) 0 0"
    using cov_lagged [of x y 0 1] by (simp add: lagged_def)
  then show ?thesis
    by (auto simp: lagged_one_by_hand) (simp add: lagged_def)
qed

theorem lag_is_preshift_witness:
  "cov (real_array [0, 1, 2] (Scalar [1, 2, 3])) (real_array [0, 1, 2] (Scalar [5, 1, 4])) 0 1
     = cov (real_array [0, 1, 2] (Scalar [1, 2, 3]))
         \<lparr>time = [0, 1], series = Scalar [Fin 1, Fin 4]\<rparr> 0 0
   \<and> cov (real_array [0, 1, 2] (Scalar [1, 2, 3])) (real_array [0, 1, 2] (Scalar [5, 1, 4])) 0 1
     = Scalar (Fin (3 / 4))"
proof -
  have h: "wf_time (real_array [0, 1, 2] (Scalar [5, 1, 4]))
         \<and> defined_after_first (real_array [0, 1, 2] (Scalar [5, 1, 4]))"
    and s: "hand_shifted (real_array [0, 1, 2] (Scalar [5, 1, 4]))
           = \<lparr>time = [0, 1], series = Scalar [Fin 1, Fin 4]\<rparr>"
    by (simp_all add: wf_time_def defined_after_first_def hand_shifted_def real_array_def)
  from lag_is_preshift [of "real_array [0, 1, 2] (Scalar [1, 2, 3])"
      "real_array [0, 1, 2] (Scalar [5, 1, 4])"] h
  have "cov (real_array [0, 1, 2] (Scalar [1, 2, 3])) (real_array [0, 1, 2] (Scalar [5, 1, 4])) 0 1
      = cov (real_array [0, 1, 2] (Scalar [1, 2, 3]))
          (hand_shifted (real_array [0, 1, 2] (Scalar [5, 1, 4]))) 0 0"
    by blast
  then have b: "cov (real_array [0, 1, 2] (Scalar [1, 2, 3]))
          (real_array [0, 1, 2] (Scalar [5, 1, 4])) 0 1
      = cov (real_array [0, 1, 2] (Scalar [1, 2, 3]))
          \<lparr>time = [0, 1], series = Scalar [Fin 1, Fin 4]\<rparr> 0 0"
    by (simp only: s)
  from b b [unfolded cov_direct_example] show ?thesis by (rule conjI)
qed

section \<open>Degenerate inputs\<close>

text \<open>
  Claim C4, amended. On inputs without a repeated coordinate label \<open>cov\<close>, \<open>cor\<close>,
  \<open>reg\<close> and \<open>linregress_ND\<close> raise no exception, whatever the lags. When no time
  position is left after lag shifting and alignment, covariance, correlation, slope,
  intercept, p-value and standard error are NaN in every cell. When \<open>x\<close> is constant
  over time in every cell, with an integer value \<open>c\<close> on \<open>n \<ge> 1\<close> positions such that
  \<open>n * |c| < 2\<^sup>5\<^sup>3\<close> (its mean is then computed without rounding), then for any \<open>y\<close> on
  the same time positions and cells the covariance is 0, \<open>cor x y\<close>, \<open>cor y x\<close>, slope
  and intercept of \<open>reg x y\<close> are NaN, and so are the p-value and the standard error of
  \<open>linregress_ND\<close>; no exception is raised.
\<close>

theorem degenerate_inputs:
  "(unique_labels x \<and> unique_labels y \<and> wf_cells (series x) \<and> wf_cells (series y) \<longrightarrow>
      \<not> raises x y lagx lagy
      \<and> (\<exists>p e. linregress_ND tcdf x y lagx lagy =
                  Inr (cov x y lagx lagy, cor x y lagx lagy, fst (reg x y lagx lagy),
                       snd (reg x y lagx lagy), p, e)))
   \<and> (\<not> raises x y lagx lagy \<and> wf_cells (series x) \<and> wf_cells (series y)
      \<and> wf_time x \<and> wf_time y \<and> n_aligned x y lagx lagy = 0 \<longrightarrow>
      gall is_nan (cov x y lagx lagy) \<and> gall is_nan (cor x y lagx lagy)
      \<and> gall is_nan (fst (reg x y lagx lagy)) \<and> gall is_nan (snd (reg x y lagx lagy))
      \<and> (\<exists>p e. linregress_ND tcdf x y lagx lagy =
                  Inr (cov x y lagx lagy, cor x y lagx lagy, fst (reg x y lagx lagy),
                       snd (reg x y lagx lagy), p, e)
                \<and> gall is_nan p \<and> gall is_nan e))
   \<and> (ts \<noteq> [] \<and> gall (\<lambda>s. length s = length ts \<and> const_int s) gx \<and> wf_cells gx
      \<and> time z = ts \<and> glabels (series z) = glabels gx \<and> wf_cells (series z) \<longrightarrow>
      \<not> raises (real_array ts gx) z 0 0 \<and> \<not> raises z (real_array ts gx) 0 0
      \<and> gall (\<lambda>v. v = Fin 0) (cov (real_array ts gx) z 0 0)
      \<and> gall is_nan (cor (real_array ts gx) z 0 0)
      \<and> gall is_nan (cor z (real_array ts gx) 0 0)
      \<and> gall is_nan (fst (reg (real_array ts gx) z 0 0))
      \<and> gall is_nan (snd (reg (real_array ts gx) z 0 0))
      \<and> (\<exists>p e. linregress_ND tcdf (real_array ts gx) z 0 0 =
                  Inr (cov (real_array ts gx) z 0 0, cor (real_array ts gx) z 0 0,
                       fst (reg (real_array ts gx) z 0 0), snd (reg (real_array ts gx) z 0 0),
                       p, e)
                \<and> gall is_nan p \<and> gall is_nan e))"
proof (intro conjI impI)
  assume h: "unique_labels x \<and> unique_labels y \<and> wf_cells (series x) \<and> wf_cells (series y)"
  then show "\<not> raises x y lagx lagy"
    by (simp add: unique_labels_no_raise)
  from h show "\<exists>p e. linregress_ND tcdf x y lagx lagy =
                  Inr (cov x y lagx lagy, cor x y lagx lagy, fst (reg x y lagx lagy),
                       snd (reg x y lagx lagy), p, e)"
    using linregress_ND_returns [of x y tcdf lagx lagy] by blast
next
  assume h: "\<not> raises x y lagx lagy \<and> wf_cells (series x) \<and> wf_cells (series y)
      \<and> wf_time x \<and> wf_time y \<and> n_aligned x y lagx lagy = 0"
  then have w: "wf_cells (series x)" "wf_cells (series y)" "wf_time x" "wf_time y"
    "n_aligned x y lagx lagy = 0" by simp_all
  note s = no_overlap_stats [OF w]
  show "gall is_nan (cov x y lagx lagy)" by (rule s(1))
  show "gall is_nan (cor x y lagx lagy)" by (rule s(2))
  show "gall is_nan (fst (reg x y lagx lagy))" by (rule s(3))
  show "gall is_nan (snd (reg x y lagx lagy))" by (rule s(4))
  have "gall is_undefined (cor x y lagx lagy)"
    using s(2) by (rule gall_mono) (simp add: is_nan_def is_undefined_def)
  with w(1,2) show "\<exists>p e. linregress_ND tcdf x y lagx lagy =
                  Inr (cov x y lagx lagy, cor x y lagx lagy, fst (reg x y lagx lagy),
                       snd (reg x y lagx lagy), p, e)
                \<and> gall is_nan p \<and> gall is_nan e"
    by (rule linregress_undefined)
next
  assume h: "ts \<noteq> [] \<and> gall (\<lambda>s. length s = length ts \<and> const_int s) gx \<and> wf_cells gx
      \<and> time z = ts \<and> glabels (series z) = glabels gx \<and> wf_cells (series z)"
  then have ne: "ts \<noteq> []" and g: "gall (\<lambda>s. length s = length ts \<and> const_int s) gx"
    and t: "time z = ts" "glabels (series z) = glabels gx"
    and w: "wf_cells (series (real_array ts gx))" "wf_cells (series z)"
    by (simp_all add: real_array_def)
  have l: "gall (\<lambda>s. length s = length ts) gx"
    using g by (rule gall_mono) simp
  have v: "gall (\<lambda>s. pop_var s = 0) gx"
    using g by (rule gall_mono) (use ne in \<open>auto intro: const_int_var\<close>)
  note s = zero_variance_stats [OF ne l v t]
  have a: "time (real_array ts gx) = time z"
    "glabels (series (real_array ts gx)) = glabels (series z)"
    using t by (simp_all add: real_array_def)
  show "\<not> raises (real_array ts gx) z 0 0" using a by (rule aligned_no_raise)
  show "\<not> raises z (real_array ts gx) 0 0" using a by (simp add: aligned_no_raise)
  show "gall (\<lambda>v. v = Fin 0) (cov (real_array ts gx) z 0 0)" by (rule s(1))
  show "gall is_nan (cor (real_array ts gx) z 0 0)" by (rule s(2))
  show "gall is_nan (cor z (real_array ts gx) 0 0)" by (rule s(6))
  show "gall is_nan (fst (reg (real_array ts gx) z 0 0))" by (rule s(3))
  show "gall is_nan (snd (reg (real_array ts gx) z 0 0))" by (rule s(4))
  have "gall is_undefined (cor (real_array ts gx) z 0 0)"
    using s(2) by (rule gall_mono) (simp add: is_nan_def is_undefined_def)
  with w show "\<exists>p e. linregress_ND tcdf (real_array ts gx) z 0 0 =
                  Inr (cov (real_array ts gx) z 0 0, cor (real_array ts gx) z 0 0,
                       fst (reg (real_array ts gx) z 0 0), snd (reg (real_array ts gx) z 0 0),
                       p, e)
                \<and> gall is_nan p \<and> gall is_nan e"
    by (rule linregress_undefined)
qed

theorem degenerate_inputs_witness:
  "\<not> raises (real_array [0, 1] (Scalar [1, 2])) (real_array [0, 1] (Scalar [3, 4])) 0 5
   \<and> gall is_nan (cov (real_array [0, 1] (Scalar [1, 2])) (real_array [0, 1] (Scalar [3, 4])) 0 5)
   \<and> gall is_nan (cor (real_array [0, 1] (Scalar [1, 2])) (real_array [0, 1] (Scalar [3, 4])) 0 5)
   \<and> gall is_nan (fst (reg (real_array [0, 1] (Scalar [1, 2]))
                          (real_array [0, 1] (Scalar [3, 4])) 0 5))
   \<and> gall is_nan (snd (reg (real_array [0, 1] (Scalar [1, 2]))
                          (real_array [0, 1] (Scalar [3, 4])) 0 5))
   \<and> gall (\<lambda>v. v = Fin 0)
        (cov (real_array [0, 1] (Scalar [1, 1])) (real_array [0, 1] (Scalar [1, 2])) 0 0)
   \<and> gall is_nan (cor (real_array [0, 1] (Scalar [1, 1])) (real_array [0, 1] (Scalar [1, 2])) 0 0)
   \<and> gall is_nan (cor (real_array [0, 1] (Scalar [1, 2])) (real_array [0, 1] (Scalar [1, 1])) 0 0)
   \<and> gall is_nan (fst (reg (real_array [0, 1] (Scalar [1, 1]))
                          (real_array [0, 1] (Scalar [1, 2])) 0 0))
   \<and> gall is_nan (snd (reg (real_array [0, 1] (Scalar [1, 1]))
                          (real_array [0, 1] (Scalar [1, 2])) 0 0))
   \<and> (\<exists>p e. linregress_ND (\<lambda>df t. 1 / 2 + arctan t / pi)
                (real_array [0, 1] (Scalar [1, 1])) (real_array [0, 1] (Scalar [1, 2])) 0 0
              = Inr (cov (real_array [0, 1] (Scalar [1, 1])) (real_array [0, 1] (Scalar [1, 2])) 0 0,
                     cor (real_array [0, 1] (Scalar [1, 1])) (real_array [0, 1] (Scalar [1, 2])) 0 0,
                     fst (reg (real_array [0, 1] (Scalar [1, 1]))
                              (real_array [0, 1] (Scalar [1, 2])) 0 0),
                     snd (reg (real_array [0, 1] (Scalar [1, 1]))
                              (real_array [0, 1] (Scalar [1, 2])) 0 0), p, e)
            \<and> gall is_nan p \<and> gall is_nan e)"
proof -
  let ?x = "real_array [0, 1] (Scalar [1, 2])"
  let ?y = "real_array [0, 1] (Scalar [3, 4])"
  have a: "unique_labels ?x \<and> unique_labels ?y \<and> wf_cells (series ?x) \<and> wf_cells (series ?y)"
    by (simp add: real_array_def unique_labels_def)
  have b: "wf_time ?x \<and> wf_time ?y \<and> n_aligned ?x ?y 0 5 = 0"
    by (simp add: no_overlap_example) (simp add: real_array_def wf_time_def)
  have c: "[0, 1] \<noteq> ([] :: int list)
      \<and> gall (\<lambda>s. length s = length [0, 1 :: int] \<and> const_int s) (Scalar [1, 1 :: real])
      \<and> wf_cells (Scalar [1, 1 :: real]) \<and> time ?x = [0, 1]
      \<and> glabels (series ?x) = glabels (Scalar [1, 1 :: real]) \<and> wf_cells (series ?x)"
    by (simp add: real_array_def const_int_def)
  from degenerate_inputs [of ?x ?y 0 5 "\<lambda>df t. 1 / 2 + arctan t / pi" "[0, 1]" "Scalar [1, 1]" ?x]
    a b c
  show ?thesis by blast
qed

text \<open>
  Claim C4 as stated, undefined results from all four functions for every input with
  zero variance in \<open>x\<close> or \<open>y\<close>, fails: the covariance of the constant \<open>x = [1, 1]\<close>
  with \<open>y = [1, 2]\<close> is 0, and \<open>reg\<close> of the constant \<open>y = [1, 1]\<close> on \<open>x = [1, 2]\<close>
  returns slope 0 and intercept 1.
\<close>

theorem cov_constant_counterexample:
  "cov (real_array [0, 1] (Scalar [1, 1])) (real_array [0, 1] (Scalar [1, 2])) 0 0 = Scalar (Fin 0)
   \<and> \<not> gall is_undefined
          (cov (real_array [0, 1] (Scalar [1, 1])) (real_array [0, 1] (Scalar [1, 2])) 0 0)
   \<and> reg (real_array [0, 1] (Scalar [1, 2])) (real_array [0, 1] (Scalar [1, 1])) 0 0
       = (Scalar (Fin 0), Scalar (Fin 1))"
  using stats_real(1) [of "[0, 1]" "Scalar [1, 1]" "Scalar [1, 2]"]
    stats_real(3) [of "[0, 1]" "Scalar [1, 2]" "Scalar [1, 1]"]
  by (simp add: pop_cov_def pop_var_def pop_mean_def lessThan_Suc is_undefined_def fsub_def
      power2_eq_square)

section \<open>Detrending\<close>

text \<open>
  Claim C2 says that \<open>detrend_ND_xr\<close> with the default \<open>rolling_mean_window = 0\<close>
  returns the constant \<open>mean(y)\<close> on a linear trend. The function calls
  \<^verbatim>\<open>y.rolling(time=0, center=True)\<close> before anything else, which raises: with the
  default window it returns nothing, for any \<open>y\<close>.
\<close>

theorem detrend_default_window_raises: "detrend_ND_xr y 0 = Inl ValueError"
  by (simp add: detrend_ND_xr_def rolling_mean_def)

text \<open>
  Claim C3 says that with a window the regression inside \<open>detrend_ND_xr\<close> runs on the
  positions where the moving average is defined. The moving average keeps the edge
  positions as NaN and the alignment drops nothing (the \<^verbatim>\<open>dropna\<close> of the source is
  commented out): \<open>reg\<close> takes \<open>n\<close>, the mean and the standard deviation of the index
  over all positions and skips the NaN edges only in the mean of \<open>y\<close> and in the sum of
  products. On the trend \<open>y = t\<close>, five positions, window 3, it fits slope 1/5 and
  intercept 8/5, where the regression on the three defined positions fits slope 1 and
  intercept 0; the detrended array has the full length and still carries a trend.
\<close>

theorem detrend_window_fit_example:
  "rolling_mean (real_array [0, 1, 2, 3, 4] (Scalar [0, 1, 2, 3, 4])) 3
     = Inr \<lparr>time = [0, 1, 2, 3, 4], series = Scalar [NaN, Fin 1, Fin 2, Fin 3, NaN]\<rparr>
   \<and> reg \<lparr>time = [0, 1, 2, 3, 4], series = Scalar (arange 5)\<rparr>
         \<lparr>time = [0, 1, 2, 3, 4], series = Scalar [NaN, Fin 1, Fin 2, Fin 3, NaN]\<rparr> 0 0
     = (Scalar (Fin (1 / 5)), Scalar (Fin (8 / 5)))
   \<and> reg \<lparr>time = [0, 1, 2, 3, 4], series = Scalar (arange 5)\<rparr>
         (dropna_time_all
            \<lparr>time = [0, 1, 2, 3, 4], series = Scalar [NaN, Fin 1, Fin 2, Fin 3, NaN]\<rparr>) 0 0
     = (Scalar (Fin 1), Scalar (Fin 0))
   \<and> detrend_ND_xr (real_array [0, 1, 2, 3, 4] (Scalar [0, 1, 2, 3, 4])) 3
     = Inr \<lparr>time = [0, 1, 2, 3, 4],
            series = Scalar [Fin (2 / 5), Fin (6 / 5), Fin 2, Fin (14 / 5), Fin (18 / 5)]\<rparr>"
  using rolling_example reg_example_full reg_example_restricted detrend_example
  by (intro conjI)

end
